theory Spec2Isabelle
  imports Complex_Main "HOL-Library.Sublist"
begin

section \<open>Values of the JavaScript runtime\<close>

text \<open>
  The application (\<^verbatim>\<open>src/app.js\<close>) is one script: a credential kept in
  \<^verbatim>\<open>localStorage\<close>, a cancellable fetch of a result list, a card renderer and
  the event handlers that drive them. Strings are sequences of code units; the model uses
  \<^typ>\<open>string\<close>, so a code unit is below 256 and \<open>length\<close> is the script's
  \<^verbatim>\<open>.length\<close> on such strings.

  A parsed JSON body is a \<open>jsval\<close>. A number is the exact value of the double
  (\<open>Fin\<close>), or an infinity, which \<^verbatim>\<open>JSON.parse\<close> returns for a literal such
  as \<^verbatim>\<open>1e999\<close>; \<^verbatim>\<open>NaN\<close> is not the value of any JSON text.
\<close>

datatype jsnum = Fin rat | PosInf | NegInf

datatype jsval =
    JUndefined
  | JNull
  | JBool bool
  | JNum jsnum
  | JStr string
  | JArr "jsval list"
  | JObj "(string \<times> jsval) list"

text \<open>Truthiness, as \<^verbatim>\<open>?:\<close>, \<^verbatim>\<open>||\<close> and \<^verbatim>\<open>if\<close> test it.\<close>

fun truthy :: "jsval \<Rightarrow> bool" where
  "truthy JUndefined = False"
| "truthy JNull = False"
| "truthy (JBool b) = b"
| "truthy (JNum (Fin x)) = (x \<noteq> 0)"
| "truthy (JNum PosInf) = True"
| "truthy (JNum NegInf) = True"
| "truthy (JStr s) = (s \<noteq> [])"
| "truthy (JArr xs) = True"
| "truthy (JObj kvs) = True"

text \<open>\<^verbatim>\<open>a || b\<close>: the left operand when it is truthy, the right one otherwise.\<close>

definition js_or :: "jsval \<Rightarrow> jsval \<Rightarrow> jsval" where
  "js_or a b = (if truthy a then a else b)"

text \<open>
  The errors the script can meet. Those it throws itself carry the message the source
  writes; those the engine throws (\<^verbatim>\<open>TypeError\<close> on a property of
  \<^verbatim>\<open>null\<close>, the \<^verbatim>\<open>AbortError\<close> of a cancelled fetch, the
  \<^verbatim>\<open>SyntaxError\<close> of \<^verbatim>\<open>res.json()\<close>, a network failure) carry a
  message the engine chooses, which the runtime record supplies.
\<close>

datatype engine_error = TypeError | AbortError | SyntaxError | NetworkError

datatype error = AppError string | EngineError engine_error

record runtime =
  engine_message :: "engine_error \<Rightarrow> string"
  number_to_string :: "rat \<Rightarrow> string"

text \<open>
  \<open>number_to_string\<close> is the engine's text of a finite number where ECMAScript leaves
  the digits to the engine's shortest-digits search: a number that is not an integer, or
  one of magnitude \<open>2\<^sup>5\<^sup>3\<close> or more.
\<close>

definition bind_err :: "error + 'a \<Rightarrow> ('a \<Rightarrow> error + 'b) \<Rightarrow> error + 'b" where
  "bind_err r f = (case r of Inl e \<Rightarrow> Inl e | Inr x \<Rightarrow> f x)"

fun message :: "runtime \<Rightarrow> error \<Rightarrow> string" where
  "message rt (AppError m) = m"
| "message rt (EngineError e) = engine_message rt e"

text \<open>
  Property read \<^verbatim>\<open>v.name\<close>: a \<^verbatim>\<open>TypeError\<close> on \<^verbatim>\<open>null\<close> and
  \<^verbatim>\<open>undefined\<close>, the own property of an object, and \<^verbatim>\<open>undefined\<close> on
  the other values for the names the script reads (none of them is a property of a
  string, number, boolean or array). An object is the list of its properties; a name has
  the value of its first entry.
\<close>

definition fld :: "(string \<times> jsval) list \<Rightarrow> string \<Rightarrow> jsval" where
  "fld kvs name = (case map_of kvs name of None \<Rightarrow> JUndefined | Some v \<Rightarrow> v)"

fun get_prop :: "jsval \<Rightarrow> string \<Rightarrow> error + jsval" where
  "get_prop JUndefined name = Inl (EngineError TypeError)"
| "get_prop JNull name = Inl (EngineError TypeError)"
| "get_prop (JObj kvs) name = Inr (fld kvs name)"
| "get_prop v name = Inr JUndefined"

subsection \<open>Decimal digits and \<^verbatim>\<open>trim\<close>\<close>

definition digit :: "nat \<Rightarrow> char" where
  "digit d = char_of (48 + d)"

fun dec :: "nat \<Rightarrow> string" where
  "dec n = (if n < 10 then [digit n] else dec (n div 10) @ [digit (n mod 10)])"

declare dec.simps [simp del]

text \<open>White space of \<^verbatim>\<open>String.prototype.trim\<close> among the code units below 256.\<close>

definition is_ws :: "char \<Rightarrow> bool" where
  "is_ws c = ((of_char c :: nat) \<in> {9, 10, 11, 12, 13, 32, 160})"

definition trim :: "string \<Rightarrow> string" where
  "trim s = rev (dropWhile is_ws (rev (dropWhile is_ws s)))"

subsection \<open>The text of a value\<close>

text \<open>
  \<^verbatim>\<open>ToString\<close>, which a template literal and \<^verbatim>\<open>String(v)\<close> apply. An
  integer of magnitude below \<open>2\<^sup>5\<^sup>3\<close> has its decimal digits (no shorter
  numeral denotes a number that rounds to it). An array
  joins the texts of its elements with commas, \<^verbatim>\<open>null\<close> and
  \<^verbatim>\<open>undefined\<close> elements giving the empty text. An object has the text of
  \<^verbatim>\<open>Object.prototype.toString\<close>, unless it has a property
  \<^verbatim>\<open>toString\<close> of its own: no value of a JSON text can be called, the
  conversion finds no primitive and throws.
\<close>

definition number_text :: "runtime \<Rightarrow> jsnum \<Rightarrow> string" where
  "number_text rt n =
     (case n of
        PosInf \<Rightarrow> ''Infinity''
      | NegInf \<Rightarrow> ''-Infinity''
      | Fin x \<Rightarrow>
          if x = of_int \<lfloor>x\<rfloor> \<and> \<bar>x\<bar> < 2 ^ 53
          then (if x < 0 then ''-'' else []) @ dec (nat \<lfloor>\<bar>x\<bar>\<rfloor>)
          else number_to_string rt x)"

fun to_string :: "runtime \<Rightarrow> jsval \<Rightarrow> error + string"
  and join_texts :: "runtime \<Rightarrow> jsval list \<Rightarrow> error + string" where
  "to_string rt JUndefined = Inr ''undefined''"
| "to_string rt JNull = Inr ''null''"
| "to_string rt (JBool b) = Inr (if b then ''true'' else ''false'')"
| "to_string rt (JNum n) = Inr (number_text rt n)"
| "to_string rt (JStr s) = Inr s"
| "to_string rt (JArr xs) = join_texts rt xs"
| "to_string rt (JObj kvs) =
     (if map_of kvs ''toString'' \<noteq> None then Inl (EngineError TypeError)
      else Inr ''[object Object]'')"
| "join_texts rt [] = Inr []"
| "join_texts rt (x # xs) =
     bind_err (if x = JNull \<or> x = JUndefined then Inr [] else to_string rt x) (\<lambda>a.
       if xs = [] then Inr a
       else bind_err (join_texts rt xs) (\<lambda>b. Inr (a @ '','' @ b)))"

subsection \<open>Markup assigned to \<^verbatim>\<open>innerHTML\<close>\<close>

text \<open>
  The script builds the markup of a card with a template literal and assigns it to
  \<^verbatim>\<open>innerHTML\<close>: every interpolated text is parsed as HTML, unescaped. The
  model follows the parser on the texts it leaves alone, in element content and inside a
  double-quoted attribute alike: those without \<^verbatim>\<open><\<close>, \<^verbatim>\<open>&\<close>,
  a double quote, a carriage return or a null character. Such a text is what the element
  shows (\<open>Text\<close>). Any other text is markup whose parse is outside the model
  (\<open>Markup\<close>): it can close the attribute or the element it was put in and create
  elements of its own.
\<close>

datatype content = Text string | Markup string

definition plain :: "string \<Rightarrow> bool" where
  "plain s = list_all (\<lambda>c. (of_char c :: nat) \<notin> {0, 13, 34, 38, 60}) s"

definition parsed :: "string \<Rightarrow> content" where
  "parsed s = (if plain s then Text s else Markup s)"

section \<open>The page and the script's state\<close>

text \<open>
  One record holds what the script reads and writes: its \<^verbatim>\<open>state\<close> object, the
  closure variable \<^verbatim>\<open>debounceTimer\<close>, the parts of the document it touches, the
  \<^verbatim>\<open>localStorage\<close> area, the fetches awaiting their response, and the timers
  awaiting their delay. The elements looked up by \<^verbatim>\<open>initElements\<close> are taken to
  exist in the page. \<^verbatim>\<open>state.imageBaseUrl\<close> is never assigned and is a constant.

  A card is the \<^verbatim>\<open>article\<close> built by \<^verbatim>\<open>makeCard\<close>: its
  identifier, and what the parser makes of the texts interpolated into its markup, for
  the poster (the source of the image, or the placeholder block), the title, the rating
  and the year. The identifier is \<^verbatim>\<open>movieCard-\<close> followed by the text of the
  record's \<^verbatim>\<open>id\<close> (\<open>FromId\<close>), or by the text of the title, a hyphen and
  digits of \<^verbatim>\<open>Math.random()\<close> (\<open>FromTitle\<close>, which keeps the title's
  text); it is a property of the element and is not parsed. The class, the tab index
  and the pointer listener of a card play no part below and are left out.
\<close>

datatype ident = FromId string | FromTitle string

datatype poster = Img content | Placeholder

record card =
  ident :: ident
  poster :: poster
  title :: content
  rating :: content
  year :: content

datatype node = CardNode card | Notice string

datatype obs = DebounceFired string | SearchMovies string | LoadTrending

record app =
  apiKey :: "string option"
  abortController :: "nat option"
  debounceTimer :: "nat option"
  apiKeyInput :: string
  searchInput :: string
  settingsHidden :: bool
  moviesSection :: bool
  ariaBusy :: "bool option"
  moviesGrid :: "node list"
  alerts :: "string list"
  storage :: "string \<rightharpoonup> string"
  storageReadFails :: bool
  storageWriteFails :: bool
  aborted :: "nat list"
  pending :: "(nat \<times> string) list"
  nextController :: nat
  timers :: "(nat \<times> nat \<times> string) list"
  nextTimer :: nat
  clock :: nat
  trace :: "obs list"

text \<open>
  \<open>storage\<close> is the content of \<^verbatim>\<open>localStorage\<close>; \<open>storageReadFails\<close> and
  \<open>storageWriteFails\<close> say that \<^verbatim>\<open>getItem\<close>, respectively
  \<^verbatim>\<open>setItem\<close>, throws. \<open>aborted\<close> lists the controllers whose
  \<^verbatim>\<open>abort()\<close> has been called, \<open>pending\<close> the fetches whose promise is not
  settled yet (controller and URL), \<open>timers\<close> the timeouts not yet run (identifier, due
  time, captured query). \<open>trace\<close> records, in order, each run of the debounce callback
  and each entry into \<^verbatim>\<open>searchMovies\<close> and \<^verbatim>\<open>loadTrending\<close>; no
  function reads it.
\<close>

definition page :: "(string \<rightharpoonup> string) \<Rightarrow> bool \<Rightarrow> bool \<Rightarrow> bool \<Rightarrow> app" where
  "page store rfail wfail sect =
     \<lparr> apiKey = None, abortController = None, debounceTimer = None,
       apiKeyInput = [], searchInput = [], settingsHidden = True,
       moviesSection = sect, ariaBusy = None, moviesGrid = [], alerts = [],
       storage = store, storageReadFails = rfail, storageWriteFails = wfail,
       aborted = [], pending = [], nextController = 0,
       timers = [], nextTimer = 0, clock = 0, trace = [] \<rparr>"

section \<open>Credential store\<close>

definition key_name :: string where
  "key_name = ''tmdb_api_key''"

text \<open>
  \<^verbatim>\<open>loadApiKey\<close>: when \<^verbatim>\<open>getItem\<close> throws, the \<^verbatim>\<open>catch\<close> swallows
  it and nothing has been assigned. Otherwise \<^verbatim>\<open>key && key.length > 5 ? key : null\<close>
  is stored, and a truthy credential is copied into the settings input.
\<close>

definition loadApiKey :: "app \<Rightarrow> app" where
  "loadApiKey st =
     (if storageReadFails st then st
      else
        let key = storage st key_name;
            adopted = (case key of
                         None \<Rightarrow> None
                       | Some k \<Rightarrow> if k \<noteq> [] \<and> length k > 5 then Some k else None);
            st1 = st\<lparr>apiKey := adopted\<rparr>
        in (case adopted of
              None \<Rightarrow> st1
            | Some k \<Rightarrow> if k \<noteq> [] then st1\<lparr>apiKeyInput := k\<rparr> else st1))"

text \<open>
  \<^verbatim>\<open>saveApiKey\<close>: \<^verbatim>\<open>setItem\<close> first, then the assignment; when
  \<^verbatim>\<open>setItem\<close> throws the assignment is skipped.
\<close>

definition saveApiKey :: "string \<Rightarrow> app \<Rightarrow> app" where
  "saveApiKey key st =
     (if storageWriteFails st then st
      else st\<lparr>storage := (storage st)(key_name \<mapsto> key), apiKey := Some key\<rparr>)"

section \<open>Card renderer\<close>

definition imageBaseUrl :: string where
  "imageBaseUrl = ''https://image.tmdb.org/t/p/w500''"

text \<open>
  \<^verbatim>\<open>Number.prototype.toFixed(1)\<close>, as ECMAScript defines it on the mathematical
  value of the number: a value that is not finite gives its name; a magnitude of
  \<open>10\<^sup>2\<^sup>1\<close> or more gives the sign and the text of the magnitude;
  otherwise \<open>n\<close> is the integer for which \<open>n / 10\<close> is nearest to the magnitude
  (the larger one of two), its digits are padded to two places and the point is put
  before the last.
\<close>

definition toFixed1 :: "runtime \<Rightarrow> jsnum \<Rightarrow> string" where
  "toFixed1 rt v =
     (case v of
        PosInf \<Rightarrow> ''Infinity''
      | NegInf \<Rightarrow> ''-Infinity''
      | Fin x \<Rightarrow>
          let s = (if x < 0 then ''-'' else []);
              a = \<bar>x\<bar>
          in if a \<ge> 10 ^ 21 then s @ number_text rt (Fin a)
             else
               let n = nat \<lfloor>10 * a + 1 / 2\<rfloor>;
                   m0 = dec n;
                   m = (if length m0 \<le> 1 then replicate (2 - length m0) CHR ''0'' @ m0 else m0);
                   k = length m
               in s @ take (k - 1) m @ ''.'' @ drop (k - 1) m)"


text \<open>
  \<^verbatim>\<open>x.slice(0, 4)\<close>: on a string and on an array; any other value has no callable
  \<^verbatim>\<open>slice\<close> and the call throws.
\<close>

fun slice4 :: "jsval \<Rightarrow> error + jsval" where
  "slice4 (JStr s) = Inr (JStr (take 4 s))"
| "slice4 (JArr xs) = Inr (JArr (take 4 xs))"
| "slice4 v = Inl (EngineError TypeError)"

text \<open>
  \<^verbatim>\<open>makeCard\<close>, statement by statement: the poster path and its text, the
  title, the rating, the identifier, then the template, which converts the title and the
  sliced date to text. Every conversion can throw.
\<close>

definition makeCard :: "runtime \<Rightarrow> jsval \<Rightarrow> error + card" where
  "makeCard rt movie =
     bind_err (get_prop movie ''poster_path'') (\<lambda>poster_path.
     bind_err (if truthy poster_path
               then bind_err (to_string rt poster_path) (\<lambda>p. Inr (imageBaseUrl @ p))
               else Inr []) (\<lambda>posterPath.
     bind_err (get_prop movie ''title'') (\<lambda>t.
     bind_err (get_prop movie ''name'') (\<lambda>name.
     bind_err (get_prop movie ''vote_average'') (\<lambda>vote_average.
     bind_err (get_prop movie ''id'') (\<lambda>movie_id.
       let title = js_or (js_or t name) (JStr ''Untitled'');
           rating = (case vote_average of JNum x \<Rightarrow> toFixed1 rt x | _ \<Rightarrow> ''N/A'')
       in
     bind_err (if truthy movie_id
               then bind_err (to_string rt movie_id) (\<lambda>i. Inr (FromId i))
               else bind_err (to_string rt title) (\<lambda>i. Inr (FromTitle i))) (\<lambda>uniqueIdBase.
     bind_err (to_string rt title) (\<lambda>titleText.
     bind_err (get_prop movie ''release_date'') (\<lambda>release_date.
     bind_err (get_prop movie ''first_air_date'') (\<lambda>first_air_date.
     bind_err (slice4 (js_or (js_or release_date first_air_date) (JStr []))) (\<lambda>badge.
     bind_err (to_string rt badge) (\<lambda>badgeText.
       Inr \<lparr> ident = uniqueIdBase,
             poster = (if posterPath \<noteq> [] then Img (parsed posterPath) else Placeholder),
             title = parsed titleText,
             rating = parsed rating,
             year = parsed badgeText \<rparr>))))))))))))"

text \<open>
  The value of a property of a record that can be read, and the values whose conversion
  to text cannot throw.
\<close>

definition read_prop :: "jsval \<Rightarrow> string \<Rightarrow> jsval" where
  "read_prop movie name = (case get_prop movie name of Inl e \<Rightarrow> JUndefined | Inr v \<Rightarrow> v)"


text \<open>\<^verbatim>\<open>results.forEach\<close>: the first card that throws ends the loop.\<close>

fun makeCards :: "runtime \<Rightarrow> jsval list \<Rightarrow> error + card list" where
  "makeCards rt [] = Inr []"
| "makeCards rt (m # ms) =
     bind_err (makeCard rt m) (\<lambda>c. bind_err (makeCards rt ms) (\<lambda>cs. Inr (c # cs)))"

text \<open>
  \<^verbatim>\<open>renderMovies\<close> empties the grid, builds the cards in a fragment and appends
  the fragment; when a card throws, the grid has been emptied and nothing is appended.
\<close>

definition renderMovies :: "runtime \<Rightarrow> jsval list \<Rightarrow> app \<Rightarrow> error option \<times> app" where
  "renderMovies rt results st =
     (let st1 = st\<lparr>moviesGrid := []\<rparr>
      in case makeCards rt results of
           Inl e \<Rightarrow> (Some e, st1)
         | Inr cs \<Rightarrow> (None, st1\<lparr>moviesGrid := map CardNode cs\<rparr>))"

text \<open>
  \<^verbatim>\<open>notifyError\<close> replaces the content of the grid by one block holding
  \<^verbatim>\<open>err.message\<close>, or the fixed text when the message is empty.
\<close>

definition notifyError :: "runtime \<Rightarrow> error \<Rightarrow> app \<Rightarrow> app" where
  "notifyError rt err st =
     st\<lparr>moviesGrid :=
          [Notice (if message rt err \<noteq> [] then message rt err else ''Something went wrong'')]\<rparr>"

definition setBusy :: "bool \<Rightarrow> app \<Rightarrow> app" where
  "setBusy isBusy st = (if \<not> moviesSection st then st else st\<lparr>ariaBusy := Some isBusy\<rparr>)"

definition showSettings :: "bool \<Rightarrow> app \<Rightarrow> app" where
  "showSettings opn st = st\<lparr>settingsHidden := \<not> opn\<rparr>"

section \<open>Data source client\<close>

definition hexdigit :: "nat \<Rightarrow> char" where
  "hexdigit d = (if d < 10 then char_of (48 + d) else char_of (55 + d))"

definition pct :: "nat \<Rightarrow> string" where
  "pct b = [CHR ''%'', hexdigit (b div 16), hexdigit (b mod 16)]"

definition unreserved :: "char \<Rightarrow> bool" where
  "unreserved c =
     (let n = (of_char c :: nat)
      in (65 \<le> n \<and> n \<le> 90) \<or> (97 \<le> n \<and> n \<le> 122) \<or> (48 \<le> n \<and> n \<le> 57)
         \<or> n \<in> {45, 95, 46, 33, 126, 42, 39, 40, 41})"

text \<open>
  \<^verbatim>\<open>encodeURIComponent\<close> on code units below 256: the unreserved ones stay, the
  others become the escaped bytes of their UTF-8 form.
\<close>

definition encode_unit :: "char \<Rightarrow> string" where
  "encode_unit c =
     (let n = (of_char c :: nat)
      in if unreserved c then [c]
         else if n < 128 then pct n
         else pct (192 + n div 64) @ pct (128 + n mod 64))"

definition encodeURIComponent :: "string \<Rightarrow> string" where
  "encodeURIComponent s = concat (map encode_unit s)"

text \<open>The text of \<^verbatim>\<open>state.apiKey\<close> inside a template literal.\<close>

definition key_text :: "string option \<Rightarrow> string" where
  "key_text k = (case k of None \<Rightarrow> ''null'' | Some s \<Rightarrow> s)"

definition buildSearchUrl :: "app \<Rightarrow> string \<Rightarrow> nat \<Rightarrow> string" where
  "buildSearchUrl st query pg =
     ''https://api.themoviedb.org/3/search/movie?api_key='' @ key_text (apiKey st)
       @ ''&query='' @ encodeURIComponent (trim query)
       @ ''&include_adult=false&language=en-US&page='' @ dec pg"

definition buildTrendingUrl :: "app \<Rightarrow> string" where
  "buildTrendingUrl st =
     ''https://api.themoviedb.org/3/trending/movie/week?api_key='' @ key_text (apiKey st)"

definition key_truthy :: "string option \<Rightarrow> bool" where
  "key_truthy k = (case k of None \<Rightarrow> False | Some s \<Rightarrow> s \<noteq> [])"

text \<open>
  The three statements of \<^verbatim>\<open>fetchJson\<close> between the credential check and the
  \<^verbatim>\<open>await\<close>: abort the stored controller, store a new one, start the fetch with
  its signal.
\<close>

definition abort_stored :: "app \<Rightarrow> app" where
  "abort_stored st =
     (case abortController st of
        None \<Rightarrow> st
      | Some h \<Rightarrow> st\<lparr>aborted := h # aborted st\<rparr>)"

definition new_controller :: "app \<Rightarrow> app" where
  "new_controller st =
     st\<lparr>abortController := Some (nextController st), nextController := Suc (nextController st)\<rparr>"

definition start_fetch :: "string \<Rightarrow> app \<Rightarrow> app" where
  "start_fetch url st =
     (case abortController st of
        None \<Rightarrow> st
      | Some h \<Rightarrow> st\<lparr>pending := pending st @ [(h, url)]\<rparr>)"

definition missing_key :: string where
  "missing_key = ''Missing TMDb API key. Click the gear icon to set it.''"

definition fetchJson :: "string \<Rightarrow> app \<Rightarrow> error + app" where
  "fetchJson url st =
     (if \<not> key_truthy (apiKey st) then Inl (AppError missing_key)
      else Inr (start_fetch url (new_controller (abort_stored st))))"

text \<open>
  What the network hands to a fetch that was not cancelled: a response with its status
  and its body as \<^verbatim>\<open>res.json()\<close> parses it (\<open>None\<close> when the text is not
  JSON), or a failure of the network.
\<close>

datatype outcome = Response nat "jsval option" | NetworkFailure

definition ok :: "nat \<Rightarrow> bool" where
  "ok status = (200 \<le> status \<and> status \<le> 299)"

text \<open>
  The rest of the \<^verbatim>\<open>try\<close> block of \<^verbatim>\<open>searchMovies\<close> and
  \<^verbatim>\<open>loadTrending\<close> once the fetch has settled: the status check and the parse of
  \<^verbatim>\<open>fetchJson\<close>, then \<^verbatim>\<open>Array.isArray(data.results) ? data.results : []\<close>
  and \<^verbatim>\<open>renderMovies\<close>. The result is the error thrown, if any.
\<close>

definition receive :: "runtime \<Rightarrow> engine_error + outcome \<Rightarrow> app \<Rightarrow> error option \<times> app" where
  "receive rt r st =
     (case r of
        Inl e \<Rightarrow> (Some (EngineError e), st)
      | Inr NetworkFailure \<Rightarrow> (Some (EngineError NetworkError), st)
      | Inr (Response status body) \<Rightarrow>
          if \<not> ok status then (Some (AppError (''Request failed ('' @ dec status @ '')'')), st)
          else (case body of
                  None \<Rightarrow> (Some (EngineError SyntaxError), st)
                | Some data \<Rightarrow>
                    (case get_prop data ''results'' of
                       Inl e \<Rightarrow> (Some e, st)
                     | Inr res \<Rightarrow>
                         renderMovies rt (case res of JArr xs \<Rightarrow> xs | _ \<Rightarrow> []) st)))"

text \<open>The \<^verbatim>\<open>catch\<close> and \<^verbatim>\<open>finally\<close> clauses.\<close>

definition settle :: "runtime \<Rightarrow> error option \<times> app \<Rightarrow> app" where
  "settle rt r =
     setBusy False (case fst r of None \<Rightarrow> snd r | Some e \<Rightarrow> notifyError rt e (snd r))"

text \<open>
  \<^verbatim>\<open>abort()\<close> rejects the promise of a fetch that is still pending with an
  \<^verbatim>\<open>AbortError\<close>; the function awaiting it resumes in its \<^verbatim>\<open>catch\<close>
  as soon as the running handler has returned, before any other event.
\<close>

definition reject_aborted :: "runtime \<Rightarrow> app \<Rightarrow> app" where
  "reject_aborted rt st =
     (let dead = filter (\<lambda>p. fst p \<in> set (aborted st)) (pending st);
          st1 = st\<lparr>pending := filter (\<lambda>p. fst p \<notin> set (aborted st)) (pending st)\<rparr>
      in fold (\<lambda>p s. settle rt (Some (EngineError AbortError), s)) dead st1)"

definition searchMovies :: "runtime \<Rightarrow> string \<Rightarrow> app \<Rightarrow> app" where
  "searchMovies rt query st =
     (let st1 = setBusy True (st\<lparr>trace := trace st @ [SearchMovies query]\<rparr>)
      in case fetchJson (buildSearchUrl st1 query 1) st1 of
           Inl e \<Rightarrow> settle rt (Some e, st1)
         | Inr st2 \<Rightarrow> reject_aborted rt st2)"

definition loadTrending :: "runtime \<Rightarrow> app \<Rightarrow> app" where
  "loadTrending rt st =
     (let st1 = setBusy True (st\<lparr>trace := trace st @ [LoadTrending]\<rparr>)
      in case fetchJson (buildTrendingUrl st1) st1 of
           Inl e \<Rightarrow> settle rt (Some e, st1)
         | Inr st2 \<Rightarrow> reject_aborted rt st2)"

text \<open>
  The promise of the pending fetch \<open>h\<close> settles with \<open>out\<close>, or with the
  \<^verbatim>\<open>AbortError\<close> when its controller has been aborted; a fetch that is not
  pending has nothing left to run.
\<close>

definition complete :: "runtime \<Rightarrow> nat \<Rightarrow> outcome \<Rightarrow> app \<Rightarrow> app" where
  "complete rt h out st =
     (case map_of (pending st) h of
        None \<Rightarrow> st
      | Some url \<Rightarrow>
          settle rt
            (receive rt (if h \<in> set (aborted st) then Inl AbortError else Inr out)
               (st\<lparr>pending := filter (\<lambda>p. fst p \<noteq> h) (pending st)\<rparr>)))"

section \<open>Interaction controller\<close>

definition clearTimeout :: "nat option \<Rightarrow> app \<Rightarrow> app" where
  "clearTimeout t st =
     (case t of
        None \<Rightarrow> st
      | Some i \<Rightarrow> st\<lparr>timers := filter (\<lambda>e. fst e \<noteq> i) (timers st)\<rparr>)"

text \<open>\<^verbatim>\<open>setTimeout(callback, 300)\<close> with the query the callback has captured.\<close>

definition setTimeout :: "string \<Rightarrow> nat \<Rightarrow> app \<Rightarrow> nat \<times> app" where
  "setTimeout q delay st =
     (nextTimer st,
      st\<lparr>timers := timers st @ [(nextTimer st, clock st + delay, q)],
         nextTimer := Suc (nextTimer st)\<rparr>)"

definition debounce_callback :: "runtime \<Rightarrow> string \<Rightarrow> app \<Rightarrow> app" where
  "debounce_callback rt q st =
     (let st0 = st\<lparr>trace := trace st @ [DebounceFired q]\<rparr>;
          st1 = (if length q \<ge> 3 then searchMovies rt q st0 else st0)
      in if length q = 0 then loadTrending rt st1 else st1)"

text \<open>The \<^verbatim>\<open>input\<close> listener; the browser has put the new text in the field.\<close>

definition on_input :: "string \<Rightarrow> app \<Rightarrow> app" where
  "on_input v st =
     (let st0 = st\<lparr>searchInput := v\<rparr>;
          q = trim (searchInput st0);
          st1 = clearTimeout (debounceTimer st0) st0;
          r = setTimeout q 300 st1
      in (snd r)\<lparr>debounceTimer := Some (fst r)\<rparr>)"

definition on_submit :: "runtime \<Rightarrow> app \<Rightarrow> app" where
  "on_submit rt st =
     (let q = trim (searchInput st)
      in if length q = 0 then st else searchMovies rt q st)"

definition on_save :: "runtime \<Rightarrow> app \<Rightarrow> app" where
  "on_save rt st =
     (let key = trim (apiKeyInput st)
      in if length key < 10 then st\<lparr>alerts := alerts st @ [''Please paste a valid TMDb API key.'']\<rparr>
         else loadTrending rt (showSettings False (saveApiKey key st)))"

text \<open>
  Time passes by \<open>d\<close> milliseconds: the timeouts that have come due are taken off the
  list and their callbacks run, in the order they were set.
\<close>

definition elapse :: "runtime \<Rightarrow> nat \<Rightarrow> app \<Rightarrow> app" where
  "elapse rt d st =
     (let now = clock st + d;
          due = filter (\<lambda>e. fst (snd e) \<le> now) (timers st);
          st1 = st\<lparr>clock := now, timers := filter (\<lambda>e. \<not> fst (snd e) \<le> now) (timers st)\<rparr>
      in fold (\<lambda>e s. debounce_callback rt (snd (snd e)) s) due st1)"

section \<open>Bootstrap and the event loop\<close>

text \<open>
  The script runs on one thread: \<^verbatim>\<open>init\<close> first, then one handler at a time,
  each to its end, for the events of the page (clicks, typing, a form submission), of
  the clock (time passing, which runs the timeouts that are due) and of the network (a
  pending fetch receiving its outcome).
\<close>

definition init :: "runtime \<Rightarrow> app \<Rightarrow> app" where
  "init rt st =
     (let st1 = loadApiKey st
      in if key_truthy (apiKey st1) then loadTrending rt st1 else showSettings True st1)"

datatype event =
    ClickSettings
  | ClickClose
  | ClickBackdrop
  | TypeApiKey string
  | ClickSave
  | Input string
  | Submit
  | Elapse nat
  | Complete nat outcome

fun step :: "runtime \<Rightarrow> event \<Rightarrow> app \<Rightarrow> app" where
  "step rt ClickSettings st = showSettings True st"
| "step rt ClickClose st = showSettings False st"
| "step rt ClickBackdrop st = showSettings False st"
| "step rt (TypeApiKey v) st = st\<lparr>apiKeyInput := v\<rparr>"
| "step rt ClickSave st = on_save rt st"
| "step rt (Input v) st = on_input v st"
| "step rt Submit st = on_submit rt st"
| "step rt (Elapse d) st = elapse rt d st"
| "step rt (Complete h out) st = complete rt h out st"

definition run :: "runtime \<Rightarrow> event list \<Rightarrow> app \<Rightarrow> app" where
  "run rt evs st = fold (step rt) evs st"

text \<open>The fetches that are awaiting their response and have not been cancelled.\<close>

definition in_flight :: "app \<Rightarrow> (nat \<times> string) list" where
  "in_flight st = filter (\<lambda>p. fst p \<notin> set (aborted st)) (pending st)"

section \<open>Invariants and sample inputs\<close>

text \<open>
  The discipline of the in-flight handle: every pending fetch belongs to the stored
  controller and has not been aborted, no controller is pending twice, and the
  controllers in use are older than the next one to be created.
\<close>

definition net_inv :: "app \<Rightarrow> bool" where
  "net_inv st =
     ((\<forall>p \<in> set (pending st). abortController st = Some (fst p) \<and> fst p \<notin> set (aborted st))
      \<and> distinct (map fst (pending st))
      \<and> (\<forall>h. abortController st = Some h \<longrightarrow> h < nextController st)
      \<and> (\<forall>h \<in> set (aborted st). h < nextController st))"

text \<open>
  A controller that was created earlier and whose fetch is no longer pending: nothing of
  that fetch is left to run.
\<close>

definition retired :: "nat \<Rightarrow> app \<Rightarrow> bool" where
  "retired a st = (a < nextController st \<and> a \<notin> fst ` set (pending st))"

text \<open>Every timeout still waiting is the one \<^verbatim>\<open>debounceTimer\<close> names.\<close>

definition timer_inv :: "app \<Rightarrow> bool" where
  "timer_inv st = (\<forall>e \<in> set (timers st). debounceTimer st = Some (fst e))"

text \<open>
  A burst of typing: each pair is the text of the field at one \<^verbatim>\<open>input\<close>
  event and the time that passes after it.
\<close>

definition burst :: "(string \<times> nat) list \<Rightarrow> event list" where
  "burst ks = concat (map (\<lambda>k. [Input (fst k), Elapse (snd k)]) ks)"

text \<open>
  A runtime with the messages of one engine, a page whose storage holds a credential, and
  a response body with one record, for the concrete runs below. The runs convert no
  number but integers of magnitude below \<open>2\<^sup>5\<^sup>3\<close>, so that
  \<open>number_to_string\<close> is never called and is left empty.
\<close>

definition sample_runtime :: runtime where
  "sample_runtime =
     \<lparr> engine_message = (\<lambda>e. case e of
          TypeError \<Rightarrow> ''data is null''
        | AbortError \<Rightarrow> ''The operation was aborted.''
        | SyntaxError \<Rightarrow> ''JSON.parse: unexpected character at line 1 column 1 of the JSON data''
        | NetworkError \<Rightarrow> ''NetworkError when attempting to fetch resource.''),
       number_to_string = (\<lambda>x. []) \<rparr>"

definition sample_page :: app where
  "sample_page = page (Map.empty(key_name \<mapsto> ''0123456789abcdef'')) False False True"

definition dune_body :: jsval where
  "dune_body = JObj [(''page'', JNum (Fin 1)),
                     (''results'', JArr [JObj [(''id'', JNum (Fin 841)), (''title'', JStr ''Dune''),
                                               (''release_date'', JStr ''1984-12-14'')]])]"

section \<open>Properties of the credential store\<close>

text \<open>
  Claim C8. A stored credential of five characters or fewer, or no stored entry, makes
  \<^verbatim>\<open>loadApiKey\<close> hold no credential, in every state; a stored string is
  adopted exactly when it is longer than five characters. When the storage cannot be
  read, \<^verbatim>\<open>loadApiKey\<close> assigns nothing; the script calls it once, from
  \<^verbatim>\<open>init\<close>, on the state it starts with, where no credential is held, so the
  outcome is no credential there as well.
\<close>

theorem loadApiKey_adopts_only_long:
  "(\<not> storageReadFails st \<longrightarrow>
      apiKey (loadApiKey st) =
        (case storage st key_name of
           None \<Rightarrow> None
         | Some k \<Rightarrow> if 5 < length k then Some k else None))
   \<and> (storageReadFails st \<longrightarrow> apiKey (loadApiKey st) = apiKey st)
   \<and> apiKey (loadApiKey (page store rfail wfail sect)) =
        (if rfail then None
         else case store key_name of
                None \<Rightarrow> None
              | Some k \<Rightarrow> if 5 < length k then Some k else None)"
  by (auto simp: loadApiKey_def page_def Let_def split: option.splits)

theorem loadApiKey_adopts_only_long_witness:
  "apiKey (loadApiKey (page (Map.empty(key_name \<mapsto> ''abcde'')) False False True)) = None
   \<and> apiKey (loadApiKey (page Map.empty False False True)) = None
   \<and> apiKey (loadApiKey (page (Map.empty(key_name \<mapsto> ''abcdefgh'')) True False True)) = None
   \<and> apiKey (loadApiKey (page (Map.empty(key_name \<mapsto> ''abcdef'')) False False True)) = Some ''abcdef''"
  using loadApiKey_adopts_only_long [of "page (Map.empty(key_name \<mapsto> ''abcde'')) False False True"
          "Map.empty(key_name \<mapsto> ''abcdefgh'')" True False True]
        loadApiKey_adopts_only_long [of "page Map.empty False False True"
          "Map.empty(key_name \<mapsto> ''abcdef'')" False False True]
  by (simp add: page_def)

text \<open>
  Claim C9. With the storage working, \<^verbatim>\<open>saveApiKey\<close> of a string of ten
  characters or more followed by \<^verbatim>\<open>loadApiKey\<close> holds exactly that string.
\<close>

theorem save_then_load:
  assumes "\<not> storageWriteFails st" and "\<not> storageReadFails st" and "10 \<le> length v"
  shows "apiKey (loadApiKey (saveApiKey v st)) = Some v"
  using assms by (auto simp: loadApiKey_def saveApiKey_def Let_def)

theorem save_then_load_witness:
  "apiKey (loadApiKey (saveApiKey ''0123456789abcdef'' (page Map.empty False False True)))
     = Some ''0123456789abcdef''"
  using save_then_load [of "page Map.empty False False True" "''0123456789abcdef''"]
  by (simp add: page_def)

text \<open>
  Claim C10. Whenever \<^verbatim>\<open>loadApiKey\<close> adopts a stored credential (longer than
  five characters), it also writes it into the credential field of the settings panel;
  when it holds no credential afterwards, or the storage cannot be read, the field is
  left as it was.
\<close>

theorem loadApiKey_echoes_into_input:
  "(\<not> storageReadFails st \<and> storage st key_name = Some k \<and> 5 < length k \<longrightarrow>
      apiKey (loadApiKey st) = Some k \<and> apiKeyInput (loadApiKey st) = k)
   \<and> (apiKey (loadApiKey st) = None \<or> storageReadFails st \<longrightarrow>
      apiKeyInput (loadApiKey st) = apiKeyInput st)"
  by (auto simp: loadApiKey_def Let_def split: option.splits if_splits)

theorem loadApiKey_echoes_into_input_witness:
  "apiKeyInput (loadApiKey (page (Map.empty(key_name \<mapsto> ''abcdefgh'')) False False True)) = ''abcdefgh''
   \<and> apiKeyInput (loadApiKey (page (Map.empty(key_name \<mapsto> ''abc'')) False False True)) = []"
  using loadApiKey_echoes_into_input [of "page (Map.empty(key_name \<mapsto> ''abcdefgh'')) False False True" "''abcdefgh''"]
        loadApiKey_echoes_into_input [of "page (Map.empty(key_name \<mapsto> ''abc'')) False False True" "''abc''"]
  by (simp add: page_def loadApiKey_def)

section \<open>Properties of the card renderer\<close>













lemma plain_Cons: "plain (c # cs) \<longleftrightarrow> plain [c] \<and> plain cs"
  by (simp add: plain_def)




text \<open>
  The integer that \<^verbatim>\<open>toFixed(1)\<close> and \<open>one_decimal\<close> print is the one
  whose tenth is nearest to the magnitude, and the larger one of two equally near.
\<close>

lemma nearest_tenth:
  fixes a :: rat
  assumes "0 \<le> a"
  shows "\<bar>of_nat (nat \<lfloor>10 * a + 1 / 2\<rfloor>) / 10 - a\<bar> \<le> \<bar>of_int m / 10 - a\<bar>
         \<and> (\<bar>of_int m / 10 - a\<bar> = \<bar>of_nat (nat \<lfloor>10 * a + 1 / 2\<rfloor>) / 10 - a\<bar>
              \<longrightarrow> m \<le> int (nat \<lfloor>10 * a + 1 / 2\<rfloor>))"
proof -
  define k where "k = \<lfloor>10 * a + 1 / 2\<rfloor>"
  have k0: "0 \<le> k" using assms by (simp add: k_def)
  have nk: "int (nat k) = k" using k0 by simp
  have lo: "of_int k \<le> 10 * a + 1 / 2" by (simp add: k_def)
  have hi: "10 * a + 1 / 2 < of_int k + 1"
    using floor_correct [of "10 * a + 1 / 2"] by (simp add: k_def)
  have nn: "(of_nat (nat k) :: rat) = of_int k" using k0 by simp
  have A: "\<bar>of_int k / 10 - a\<bar> \<le> \<bar>of_int m / 10 - a\<bar>"
  proof (cases "m \<le> k")
    case True
    show ?thesis
    proof (cases "m = k")
      case True then show ?thesis by simp
    next
      case False
      with \<open>m \<le> k\<close> have "m \<le> k - 1" by simp
      then have "(of_int m :: rat) \<le> of_int k - 1" by (metis of_int_1 of_int_diff of_int_le_iff)
      with lo hi show ?thesis by (simp add: abs_if field_simps)
    qed
  next
    case False
    then have "k + 1 \<le> m" by simp
    then have "(of_int k :: rat) + 1 \<le> of_int m" by (metis of_int_1 of_int_add of_int_le_iff)
    with lo hi show ?thesis by (simp add: abs_if field_simps)
  qed
  have B: "\<bar>of_int m / 10 - a\<bar> = \<bar>of_int k / 10 - a\<bar> \<longrightarrow> m \<le> k"
  proof (rule impI, rule ccontr)
    assume e: "\<bar>of_int m / 10 - a\<bar> = \<bar>of_int k / 10 - a\<bar>" and "\<not> m \<le> k"
    then have "k + 1 \<le> m" by simp
    then have "(of_int k :: rat) + 1 \<le> of_int m" by (metis of_int_1 of_int_add of_int_le_iff)
    with lo hi e show False by (simp add: abs_if field_simps split: if_splits)
  qed
  show ?thesis using A B k0 by (simp add: k_def [symmetric] nn nk)
qed

lemma get_prop_read: "get_prop movie n = Inr v \<Longrightarrow> read_prop movie n = v"
  by (simp add: read_prop_def)







text \<open>
  A record is not rendered when a conversion to text throws (an identifier or a title
  that is an object with a \<^verbatim>\<open>toString\<close> property), when the record is
  \<^verbatim>\<open>null\<close>, or when its date has no \<^verbatim>\<open>slice\<close>.
\<close>

lemma makeCard_unconvertible:
  "makeCard sample_runtime (JObj [(''id'', JObj [(''toString'', JNum (Fin 1))]), (''title'', JStr ''Dune'')])
     = Inl (EngineError TypeError)
   \<and> makeCard sample_runtime (JObj [(''title'', JObj [(''toString'', JNum (Fin 1))])])
     = Inl (EngineError TypeError)
   \<and> makeCard sample_runtime JNull = Inl (EngineError TypeError)
   \<and> makeCard sample_runtime (JObj [(''release_date'', JNum (Fin 2021))])
     = Inl (EngineError TypeError)"
  by code_simp

section \<open>Properties of the fetch discipline\<close>

subsection \<open>What each operation leaves alone\<close>

lemma setBusy_frame [simp]:
  "apiKey (setBusy b st) = apiKey st"
  "abortController (setBusy b st) = abortController st"
  "debounceTimer (setBusy b st) = debounceTimer st"
  "moviesGrid (setBusy b st) = moviesGrid st"
  "aborted (setBusy b st) = aborted st"
  "pending (setBusy b st) = pending st"
  "nextController (setBusy b st) = nextController st"
  "timers (setBusy b st) = timers st"
  "nextTimer (setBusy b st) = nextTimer st"
  "clock (setBusy b st) = clock st"
  "trace (setBusy b st) = trace st"
  by (simp_all add: setBusy_def)

lemma notifyError_frame [simp]:
  "apiKey (notifyError rt e st) = apiKey st"
  "abortController (notifyError rt e st) = abortController st"
  "debounceTimer (notifyError rt e st) = debounceTimer st"
  "aborted (notifyError rt e st) = aborted st"
  "pending (notifyError rt e st) = pending st"
  "nextController (notifyError rt e st) = nextController st"
  "timers (notifyError rt e st) = timers st"
  "nextTimer (notifyError rt e st) = nextTimer st"
  "clock (notifyError rt e st) = clock st"
  "trace (notifyError rt e st) = trace st"
  by (simp_all add: notifyError_def)

lemma settle_frame [simp]:
  "apiKey (settle rt r) = apiKey (snd r)"
  "abortController (settle rt r) = abortController (snd r)"
  "debounceTimer (settle rt r) = debounceTimer (snd r)"
  "aborted (settle rt r) = aborted (snd r)"
  "pending (settle rt r) = pending (snd r)"
  "nextController (settle rt r) = nextController (snd r)"
  "timers (settle rt r) = timers (snd r)"
  "nextTimer (settle rt r) = nextTimer (snd r)"
  "clock (settle rt r) = clock (snd r)"
  "trace (settle rt r) = trace (snd r)"
  by (simp_all add: settle_def split: option.splits)

lemma settle_error_grid [simp]:
  "moviesGrid (settle rt (Some e, st)) =
     [Notice (if message rt e \<noteq> [] then message rt e else ''Something went wrong'')]"
  by (simp add: settle_def notifyError_def)

lemma renderMovies_frame [simp]:
  "apiKey (snd (renderMovies rt rs st)) = apiKey st"
  "abortController (snd (renderMovies rt rs st)) = abortController st"
  "debounceTimer (snd (renderMovies rt rs st)) = debounceTimer st"
  "aborted (snd (renderMovies rt rs st)) = aborted st"
  "pending (snd (renderMovies rt rs st)) = pending st"
  "nextController (snd (renderMovies rt rs st)) = nextController st"
  "timers (snd (renderMovies rt rs st)) = timers st"
  "nextTimer (snd (renderMovies rt rs st)) = nextTimer st"
  "clock (snd (renderMovies rt rs st)) = clock st"
  "trace (snd (renderMovies rt rs st)) = trace st"
  by (simp_all add: renderMovies_def Let_def split: sum.splits)

lemma receive_frame [simp]:
  "apiKey (snd (receive rt r st)) = apiKey st"
  "abortController (snd (receive rt r st)) = abortController st"
  "debounceTimer (snd (receive rt r st)) = debounceTimer st"
  "aborted (snd (receive rt r st)) = aborted st"
  "pending (snd (receive rt r st)) = pending st"
  "nextController (snd (receive rt r st)) = nextController st"
  "timers (snd (receive rt r st)) = timers st"
  "nextTimer (snd (receive rt r st)) = nextTimer st"
  "clock (snd (receive rt r st)) = clock st"
  "trace (snd (receive rt r st)) = trace st"
  by (simp_all add: receive_def split: sum.splits outcome.splits option.splits)

lemma fold_settle_frame [simp]:
  "apiKey (fold (\<lambda>p s. settle rt (Some e, s)) ps st) = apiKey st"
  "abortController (fold (\<lambda>p s. settle rt (Some e, s)) ps st) = abortController st"
  "debounceTimer (fold (\<lambda>p s. settle rt (Some e, s)) ps st) = debounceTimer st"
  "aborted (fold (\<lambda>p s. settle rt (Some e, s)) ps st) = aborted st"
  "pending (fold (\<lambda>p s. settle rt (Some e, s)) ps st) = pending st"
  "nextController (fold (\<lambda>p s. settle rt (Some e, s)) ps st) = nextController st"
  "timers (fold (\<lambda>p s. settle rt (Some e, s)) ps st) = timers st"
  "nextTimer (fold (\<lambda>p s. settle rt (Some e, s)) ps st) = nextTimer st"
  "clock (fold (\<lambda>p s. settle rt (Some e, s)) ps st) = clock st"
  "trace (fold (\<lambda>p s. settle rt (Some e, s)) ps st) = trace st"
  by (induction ps arbitrary: st; simp)+

lemma reject_aborted_frame [simp]:
  "apiKey (reject_aborted rt st) = apiKey st"
  "abortController (reject_aborted rt st) = abortController st"
  "debounceTimer (reject_aborted rt st) = debounceTimer st"
  "aborted (reject_aborted rt st) = aborted st"
  "pending (reject_aborted rt st) = filter (\<lambda>p. fst p \<notin> set (aborted st)) (pending st)"
  "nextController (reject_aborted rt st) = nextController st"
  "timers (reject_aborted rt st) = timers st"
  "nextTimer (reject_aborted rt st) = nextTimer st"
  "clock (reject_aborted rt st) = clock st"
  "trace (reject_aborted rt st) = trace st"
  by (simp_all add: reject_aborted_def Let_def)

lemma fetchJson_Inl: "\<not> key_truthy (apiKey st) \<Longrightarrow> fetchJson url st = Inl (AppError missing_key)"
  by (simp add: fetchJson_def)

lemma fetchJson_Inr:
  "key_truthy (apiKey st) \<Longrightarrow>
     fetchJson url st = Inr (start_fetch url (new_controller (abort_stored st)))"
  by (simp add: fetchJson_def)

lemma dispatch_fields:
  "apiKey (start_fetch url (new_controller (abort_stored st))) = apiKey st"
  "abortController (start_fetch url (new_controller (abort_stored st))) = Some (nextController st)"
  "debounceTimer (start_fetch url (new_controller (abort_stored st))) = debounceTimer st"
  "aborted (start_fetch url (new_controller (abort_stored st))) =
     (case abortController st of None \<Rightarrow> aborted st | Some h \<Rightarrow> h # aborted st)"
  "pending (start_fetch url (new_controller (abort_stored st))) = pending st @ [(nextController st, url)]"
  "nextController (start_fetch url (new_controller (abort_stored st))) = Suc (nextController st)"
  "timers (start_fetch url (new_controller (abort_stored st))) = timers st"
  "nextTimer (start_fetch url (new_controller (abort_stored st))) = nextTimer st"
  "clock (start_fetch url (new_controller (abort_stored st))) = clock st"
  "trace (start_fetch url (new_controller (abort_stored st))) = trace st"
  "moviesGrid (start_fetch url (new_controller (abort_stored st))) = moviesGrid st"
  by (simp_all add: start_fetch_def new_controller_def abort_stored_def split: option.splits)

lemma searchMovies_frame [simp]:
  "apiKey (searchMovies rt q st) = apiKey st"
  "debounceTimer (searchMovies rt q st) = debounceTimer st"
  "timers (searchMovies rt q st) = timers st"
  "nextTimer (searchMovies rt q st) = nextTimer st"
  "clock (searchMovies rt q st) = clock st"
  "trace (searchMovies rt q st) = trace st @ [SearchMovies q]"
  by (simp_all add: searchMovies_def Let_def fetchJson_def dispatch_fields)

lemma loadTrending_frame [simp]:
  "apiKey (loadTrending rt st) = apiKey st"
  "debounceTimer (loadTrending rt st) = debounceTimer st"
  "timers (loadTrending rt st) = timers st"
  "nextTimer (loadTrending rt st) = nextTimer st"
  "clock (loadTrending rt st) = clock st"
  "trace (loadTrending rt st) = trace st @ [LoadTrending]"
  by (simp_all add: loadTrending_def Let_def fetchJson_def dispatch_fields)

lemma buildSearchUrl_cong: "apiKey s = apiKey t \<Longrightarrow> buildSearchUrl s q n = buildSearchUrl t q n"
  by (simp add: buildSearchUrl_def)

lemma buildTrendingUrl_cong: "apiKey s = apiKey t \<Longrightarrow> buildTrendingUrl s = buildTrendingUrl t"
  by (simp add: buildTrendingUrl_def)

lemma searchMovies_nokey:
  assumes "\<not> key_truthy (apiKey st)"
  shows "abortController (searchMovies rt q st) = abortController st"
    and "aborted (searchMovies rt q st) = aborted st"
    and "pending (searchMovies rt q st) = pending st"
    and "nextController (searchMovies rt q st) = nextController st"
  using assms by (simp_all add: searchMovies_def Let_def fetchJson_def)

lemma loadTrending_nokey:
  assumes "\<not> key_truthy (apiKey st)"
  shows "abortController (loadTrending rt st) = abortController st"
    and "aborted (loadTrending rt st) = aborted st"
    and "pending (loadTrending rt st) = pending st"
    and "nextController (loadTrending rt st) = nextController st"
  using assms by (simp_all add: loadTrending_def Let_def fetchJson_def)

lemma supersede_pending:
  assumes "net_inv st"
  shows "filter (\<lambda>p. fst p \<notin> set (case abortController st of None \<Rightarrow> aborted st | Some h \<Rightarrow> h # aborted st))
           (pending st @ [(nextController st, url)]) = [(nextController st, url)]"
proof -
  have old: "filter (\<lambda>p. fst p \<notin> set (case abortController st of None \<Rightarrow> aborted st | Some h \<Rightarrow> h # aborted st))
           (pending st) = []"
    using assms by (auto simp: net_inv_def filter_empty_conv split: option.splits)
  have new: "nextController st \<notin> set (case abortController st of None \<Rightarrow> aborted st | Some h \<Rightarrow> h # aborted st)"
    using assms by (auto simp: net_inv_def split: option.splits)
  show ?thesis using old new by simp
qed

lemma searchMovies_key:
  assumes "key_truthy (apiKey st)"
  shows "abortController (searchMovies rt q st) = Some (nextController st)"
    and "aborted (searchMovies rt q st) =
           (case abortController st of None \<Rightarrow> aborted st | Some h \<Rightarrow> h # aborted st)"
    and "pending (searchMovies rt q st) =
           filter (\<lambda>p. fst p \<notin> set (case abortController st of None \<Rightarrow> aborted st | Some h \<Rightarrow> h # aborted st))
             (pending st @ [(nextController st, buildSearchUrl st q 1)])"
    and "nextController (searchMovies rt q st) = Suc (nextController st)"
  using assms
  by (simp_all add: searchMovies_def Let_def fetchJson_def dispatch_fields
        buildSearchUrl_cong [of "setBusy True (st\<lparr>trace := trace st @ [SearchMovies q]\<rparr>)" st]
      split: option.splits)

lemma loadTrending_key:
  assumes "key_truthy (apiKey st)"
  shows "abortController (loadTrending rt st) = Some (nextController st)"
    and "aborted (loadTrending rt st) =
           (case abortController st of None \<Rightarrow> aborted st | Some h \<Rightarrow> h # aborted st)"
    and "pending (loadTrending rt st) =
           filter (\<lambda>p. fst p \<notin> set (case abortController st of None \<Rightarrow> aborted st | Some h \<Rightarrow> h # aborted st))
             (pending st @ [(nextController st, buildTrendingUrl st)])"
    and "nextController (loadTrending rt st) = Suc (nextController st)"
  using assms
  by (simp_all add: loadTrending_def Let_def fetchJson_def dispatch_fields
        buildTrendingUrl_cong [of "setBusy True (st\<lparr>trace := trace st @ [LoadTrending]\<rparr>)" st]
      split: option.splits)

lemma net_inv_fresh:
  assumes "net_inv st"
    and "abortController st' = Some (nextController st)"
    and "aborted st' = (case abortController st of None \<Rightarrow> aborted st | Some h \<Rightarrow> h # aborted st)"
    and "pending st' = [(nextController st, url)]"
    and "nextController st' = Suc (nextController st)"
  shows "net_inv st'"
  using assms by (auto simp: net_inv_def split: option.splits)

lemma net_inv_same:
  assumes "net_inv st"
    and "abortController st' = abortController st"
    and "aborted st' = aborted st"
    and "pending st' = pending st"
    and "nextController st' = nextController st"
  shows "net_inv st'"
  using assms by (simp add: net_inv_def)

lemma searchMovies_pending:
  assumes "net_inv st" and "key_truthy (apiKey st)"
  shows "pending (searchMovies rt q st) = [(nextController st, buildSearchUrl st q 1)]"
  by (simp only: searchMovies_key(3) [OF assms(2)] supersede_pending [OF assms(1)])

lemma loadTrending_pending:
  assumes "net_inv st" and "key_truthy (apiKey st)"
  shows "pending (loadTrending rt st) = [(nextController st, buildTrendingUrl st)]"
  by (simp only: loadTrending_key(3) [OF assms(2)] supersede_pending [OF assms(1)])

lemma searchMovies_inv: "net_inv st \<Longrightarrow> net_inv (searchMovies rt q st)"
proof (cases "key_truthy (apiKey st)")
  case True
  assume i: "net_inv st"
  show ?thesis
    by (rule net_inv_fresh [OF i searchMovies_key(1) [OF True] searchMovies_key(2) [OF True]
          searchMovies_pending [OF i True] searchMovies_key(4) [OF True]])
next
  case False
  assume i: "net_inv st"
  show ?thesis
    by (rule net_inv_same [OF i searchMovies_nokey [OF False]])
qed

lemma loadTrending_inv: "net_inv st \<Longrightarrow> net_inv (loadTrending rt st)"
proof (cases "key_truthy (apiKey st)")
  case True
  assume i: "net_inv st"
  show ?thesis
    by (rule net_inv_fresh [OF i loadTrending_key(1) [OF True] loadTrending_key(2) [OF True]
          loadTrending_pending [OF i True] loadTrending_key(4) [OF True]])
next
  case False
  assume i: "net_inv st"
  show ?thesis
    by (rule net_inv_same [OF i loadTrending_nokey [OF False]])
qed

lemma complete_frame [simp]:
  "apiKey (complete rt h out st) = apiKey st"
  "abortController (complete rt h out st) = abortController st"
  "debounceTimer (complete rt h out st) = debounceTimer st"
  "aborted (complete rt h out st) = aborted st"
  "nextController (complete rt h out st) = nextController st"
  "timers (complete rt h out st) = timers st"
  "nextTimer (complete rt h out st) = nextTimer st"
  "clock (complete rt h out st) = clock st"
  "trace (complete rt h out st) = trace st"
  by (simp_all add: complete_def split: option.splits)

lemma complete_pending:
  "pending (complete rt h out st) = filter (\<lambda>p. fst p \<noteq> h) (pending st)"
proof (cases "map_of (pending st) h")
  case None
  then have "h \<notin> fst ` set (pending st)" by (simp add: map_of_eq_None_iff)
  then have "filter (\<lambda>p. fst p \<noteq> h) (pending st) = pending st"
    by (auto simp: filter_id_conv)
  with None show ?thesis by (simp add: complete_def)
next
  case (Some u)
  then show ?thesis by (simp add: complete_def)
qed

lemma complete_inv: "net_inv st \<Longrightarrow> net_inv (complete rt h out st)"
  by (auto simp: net_inv_def complete_pending distinct_map_filter)

subsection \<open>The invariant holds in every reachable state\<close>

lemma debounce_callback_frame [simp]:
  "apiKey (debounce_callback rt q st) = apiKey st"
  "debounceTimer (debounce_callback rt q st) = debounceTimer st"
  "timers (debounce_callback rt q st) = timers st"
  "nextTimer (debounce_callback rt q st) = nextTimer st"
  "clock (debounce_callback rt q st) = clock st"
  by (simp_all add: debounce_callback_def Let_def)

lemma debounce_callback_trace:
  "trace (debounce_callback rt q st) =
     trace st @ DebounceFired q #
       (if 3 \<le> length q then [SearchMovies q] else if q = [] then [LoadTrending] else [])"
  by (simp add: debounce_callback_def Let_def)

lemma debounce_callback_inv: "net_inv st \<Longrightarrow> net_inv (debounce_callback rt q st)"
proof -
  assume i: "net_inv st"
  have j: "net_inv (st\<lparr>trace := trace st @ [DebounceFired q]\<rparr>)"
    using i by (simp add: net_inv_def)
  show ?thesis
    using j by (auto simp: debounce_callback_def Let_def intro: searchMovies_inv loadTrending_inv)
qed

lemma fold_callback_frame [simp]:
  "debounceTimer (fold (\<lambda>e s. debounce_callback rt (snd (snd e)) s) due st) = debounceTimer st"
  "timers (fold (\<lambda>e s. debounce_callback rt (snd (snd e)) s) due st) = timers st"
  by (induction due arbitrary: st; simp)+

lemma fold_callback_inv:
  "net_inv st \<Longrightarrow> net_inv (fold (\<lambda>e s. debounce_callback rt (snd (snd e)) s) due st)"
  by (induction due arbitrary: st) (simp_all add: debounce_callback_inv)

lemma elapse_inv: "net_inv st \<Longrightarrow> net_inv (elapse rt d st)"
proof -
  assume i: "net_inv st"
  have "net_inv (st\<lparr>clock := clock st + d,
                    timers := filter (\<lambda>e. \<not> fst (snd e) \<le> clock st + d) (timers st)\<rparr>)"
    using i by (simp add: net_inv_def)
  then show ?thesis by (simp add: elapse_def Let_def fold_callback_inv)
qed

lemma on_input_inv: "net_inv st \<Longrightarrow> net_inv (on_input v st)"
  by (simp add: net_inv_def on_input_def Let_def setTimeout_def clearTimeout_def split: option.splits)

lemma on_submit_inv: "net_inv st \<Longrightarrow> net_inv (on_submit rt st)"
  by (simp add: on_submit_def Let_def searchMovies_inv)

lemma on_save_inv: "net_inv st \<Longrightarrow> net_inv (on_save rt st)"
proof -
  assume i: "net_inv st"
  have a: "net_inv (st\<lparr>alerts := alerts st @ [''Please paste a valid TMDb API key.'']\<rparr>)"
    using i by (simp add: net_inv_def)
  have b: "net_inv (showSettings False (saveApiKey (trim (apiKeyInput st)) st))"
    using i by (simp add: net_inv_def showSettings_def saveApiKey_def)
  show ?thesis using a b by (simp add: on_save_def Let_def loadTrending_inv)
qed

lemma step_inv: "net_inv st \<Longrightarrow> net_inv (step rt ev st)"
proof (cases ev)
  case ClickSettings then show "net_inv st \<Longrightarrow> ?thesis" by (simp add: net_inv_def showSettings_def)
next
  case ClickClose then show "net_inv st \<Longrightarrow> ?thesis" by (simp add: net_inv_def showSettings_def)
next
  case ClickBackdrop then show "net_inv st \<Longrightarrow> ?thesis" by (simp add: net_inv_def showSettings_def)
next
  case (TypeApiKey v) then show "net_inv st \<Longrightarrow> ?thesis" by (simp add: net_inv_def)
next
  case ClickSave then show "net_inv st \<Longrightarrow> ?thesis" by (simp add: on_save_inv)
next
  case (Input v) then show "net_inv st \<Longrightarrow> ?thesis" by (simp add: on_input_inv)
next
  case Submit then show "net_inv st \<Longrightarrow> ?thesis" by (simp add: on_submit_inv)
next
  case (Elapse d) then show "net_inv st \<Longrightarrow> ?thesis" by (simp add: elapse_inv)
next
  case (Complete h out) then show "net_inv st \<Longrightarrow> ?thesis" by (simp add: complete_inv)
qed

lemma run_inv: "net_inv st \<Longrightarrow> net_inv (run rt evs st)"
  unfolding run_def by (induction evs arbitrary: st) (simp_all add: step_inv)

lemma init_inv: "net_inv (init rt (page store rfail wfail sect))"
proof -
  have p: "net_inv (page store rfail wfail sect)" by (simp add: net_inv_def page_def)
  have l: "net_inv (loadApiKey (page store rfail wfail sect))"
    using p by (simp add: net_inv_def loadApiKey_def Let_def split: option.splits)
  have s: "net_inv (showSettings True (loadApiKey (page store rfail wfail sect)))"
    using l by (simp add: net_inv_def showSettings_def)
  show ?thesis using l s by (simp add: init_def Let_def loadTrending_inv)
qed

lemma reachable_inv: "net_inv (run rt evs (init rt (page store rfail wfail sect)))"
  by (rule run_inv [OF init_inv])

lemma inv_in_flight: "net_inv st \<Longrightarrow> in_flight st = pending st"
  by (auto simp: net_inv_def in_flight_def filter_id_conv)

lemma inv_pending_short: "net_inv st \<Longrightarrow> length (pending st) \<le> 1"
proof -
  assume i: "net_inv st"
  show ?thesis
  proof (cases "pending st")
    case Nil then show ?thesis by simp
  next
    case (Cons p ps)
    have "ps = []"
    proof (cases ps)
      case Nil then show ?thesis by simp
    next
      case (Cons p' ps')
      with \<open>pending st = p # ps\<close> i have "fst p = fst p'" "fst p \<noteq> fst p'"
        by (auto simp: net_inv_def)
      then show ?thesis by simp
    qed
    with Cons show ?thesis by simp
  qed
qed

lemma inv_pending_single:
  "net_inv st \<Longrightarrow> p \<in> set (pending st) \<Longrightarrow> pending st = [p]"
  using inv_pending_short [of st] by (cases "pending st") auto

lemma abort_stored_in_flight: "net_inv st \<Longrightarrow> in_flight (abort_stored st) = []"
  by (auto simp: net_inv_def in_flight_def abort_stored_def filter_empty_conv split: option.splits)

lemma dispatch_in_flight:
  "net_inv st \<Longrightarrow>
     in_flight (start_fetch url (new_controller (abort_stored st))) = [(nextController st, url)]"
  using supersede_pending [of st url] by (simp only: in_flight_def dispatch_fields)

lemma dispatch_inv:
  assumes "net_inv st"
  shows "net_inv (reject_aborted rt (start_fetch url (new_controller (abort_stored st))))"
  using assms supersede_pending [OF assms, of url]
  by (intro net_inv_fresh [OF assms, of _ url]) (simp_all only: reject_aborted_frame dispatch_fields)

text \<open>
  Claim C2. In every state the script can reach, at most one fetch is awaiting its
  response without having been cancelled. Every call of \<^verbatim>\<open>fetchJson\<close> that
  gets past the credential check first aborts the stored controller, which leaves no
  fetch in flight, and then stores a new controller and starts the one fetch that is in
  flight afterwards.
\<close>

theorem single_flight:
  "length (in_flight (run rt evs (init rt (page store rfail wfail sect)))) \<le> 1
   \<and> net_inv (run rt evs (init rt (page store rfail wfail sect)))
   \<and> (\<forall>st url st'. net_inv st \<and> fetchJson url st = Inr st' \<longrightarrow>
          (\<forall>h. abortController st = Some h \<longrightarrow> h \<in> set (aborted (abort_stored st)))
        \<and> in_flight (abort_stored st) = []
        \<and> st' = start_fetch url (new_controller (abort_stored st))
        \<and> abortController st' = Some (nextController st)
        \<and> in_flight st' = [(nextController st, url)]
        \<and> net_inv (reject_aborted rt st'))"
proof -
  let ?s = "run rt evs (init rt (page store rfail wfail sect))"
  have i: "net_inv ?s" by (rule reachable_inv)
  have a: "length (in_flight ?s) \<le> 1"
    using inv_pending_short [OF i] by (simp add: inv_in_flight [OF i])
  have b: "(\<forall>h. abortController st = Some h \<longrightarrow> h \<in> set (aborted (abort_stored st)))
        \<and> in_flight (abort_stored st) = []
        \<and> st' = start_fetch url (new_controller (abort_stored st))
        \<and> abortController st' = Some (nextController st)
        \<and> in_flight st' = [(nextController st, url)]
        \<and> net_inv (reject_aborted rt st')"
    if n: "net_inv st" and f: "fetchJson url st = Inr st'" for st url st'
  proof -
    have e: "st' = start_fetch url (new_controller (abort_stored st))"
      using f by (simp add: fetchJson_def split: if_splits)
    have "\<forall>h. abortController st = Some h \<longrightarrow> h \<in> set (aborted (abort_stored st))"
      by (simp add: abort_stored_def)
    then show ?thesis
      using abort_stored_in_flight [OF n] dispatch_in_flight [OF n, of url] dispatch_inv [OF n, of rt url]
      by (simp add: e dispatch_fields)
  qed
  show ?thesis using i a b by blast
qed

theorem single_flight_witness:
  "length (in_flight (run sample_runtime [Input ''alien'', Submit] (init sample_runtime sample_page))) \<le> 1
   \<and> in_flight (abort_stored (run sample_runtime [Input ''alien'', Submit] (init sample_runtime sample_page))) = []
   \<and> in_flight (start_fetch ''u'' (new_controller (abort_stored
         (run sample_runtime [Input ''alien'', Submit] (init sample_runtime sample_page))))) = [(2, ''u'')]"
proof -
  let ?s = "run sample_runtime [Input ''alien'', Submit] (init sample_runtime sample_page)"
  note T = single_flight [of sample_runtime "[Input ''alien'', Submit]"
      "Map.empty(key_name \<mapsto> ''0123456789abcdef'')" False False True, folded sample_page_def]
  have k: "key_truthy (apiKey ?s)" by code_simp
  have n: "nextController ?s = 2" by code_simp
  have f: "fetchJson ''u'' ?s = Inr (start_fetch ''u'' (new_controller (abort_stored ?s)))"
    using k by (simp add: fetchJson_def)
  note i = T [THEN conjunct2, THEN conjunct1]
  note C = T [THEN conjunct2, THEN conjunct2, rule_format, OF conjI [OF i f]]
  have a: "in_flight (abort_stored ?s) = []"
    by (rule C [THEN conjunct2, THEN conjunct1])
  have b: "in_flight (start_fetch ''u'' (new_controller (abort_stored ?s))) = [(nextController ?s, ''u'')]"
    by (rule C [THEN conjunct2, THEN conjunct2, THEN conjunct2, THEN conjunct2, THEN conjunct1])
  show ?thesis
    by (intro conjI) (rule T [THEN conjunct1], rule a, simp only: b n)
qed

subsection \<open>Responses\<close>

lemma receive_not_ok:
  "\<not> ok status \<Longrightarrow>
     receive rt (Inr (Response status body)) st =
       (Some (AppError (''Request failed ('' @ dec status @ '')'')), st)"
  by (simp add: receive_def)

text \<open>
  Claim C6. A response with a status outside 200 to 299 makes the fetch fail with the
  message \<^verbatim>\<open>Request failed (status)\<close>, which contains the decimal status, and
  the grid then holds that message and nothing else.
\<close>

theorem failed_status_shown:
  assumes "h \<in> fst ` set (pending st)" and "h \<notin> set (aborted st)" and "\<not> ok status"
  shows "fst (receive rt (Inr (Response status body)) st)
           = Some (AppError (''Request failed ('' @ dec status @ '')''))
       \<and> sublist (dec status) (''Request failed ('' @ dec status @ '')'')
       \<and> moviesGrid (complete rt h (Response status body) st)
           = [Notice (''Request failed ('' @ dec status @ '')'')]"
proof -
  obtain u where u: "map_of (pending st) h = Some u"
    using assms(1) by (cases "map_of (pending st) h") (auto simp: map_of_eq_None_iff)
  have s: "sublist (dec status) (''Request failed ('' @ dec status @ '')'')"
    by (rule sublist_appendI)
  have g: "moviesGrid (complete rt h (Response status body) st)
           = [Notice (''Request failed ('' @ dec status @ '')'')]"
    using u assms(2) by (simp add: complete_def receive_not_ok [OF assms(3)])
  show ?thesis using s g by (simp add: receive_not_ok [OF assms(3)])
qed

theorem failed_status_shown_witness:
  "moviesGrid (run sample_runtime [Complete 0 (Response 200 (Some dune_body)), Input ''alien'', Submit]
      (init sample_runtime sample_page))
     = [CardNode \<lparr>ident = FromId ''841'', poster = Placeholder, title = Text ''Dune'',
          rating = Text ''N/A'', year = Text ''1984''\<rparr>]
   \<and> sublist ''401'' ''Request failed (401)''
   \<and> moviesGrid (complete sample_runtime 1 (Response 401 None)
        (run sample_runtime [Complete 0 (Response 200 (Some dune_body)), Input ''alien'', Submit]
           (init sample_runtime sample_page)))
     = [Notice ''Request failed (401)'']"
proof -
  let ?s = "run sample_runtime [Complete 0 (Response 200 (Some dune_body)), Input ''alien'', Submit]
      (init sample_runtime sample_page)"
  have p: "1 \<in> fst ` set (pending ?s)" by code_simp
  have a: "1 \<notin> set (aborted ?s)" by code_simp
  have o: "\<not> ok 401" by (simp add: ok_def)
  have d: "dec 401 = ''401''" by code_simp
  have g: "moviesGrid ?s = [CardNode \<lparr>ident = FromId ''841'', poster = Placeholder, title = Text ''Dune'',
          rating = Text ''N/A'', year = Text ''1984''\<rparr>]"
    by code_simp
  show ?thesis
    using failed_status_shown [OF p a o, where body = None and rt = sample_runtime] g
    by (simp add: d)
qed

lemma receive_permissive:
  assumes "ok status" and "data \<noteq> JNull" and "data \<noteq> JUndefined"
    and "\<forall>xs. get_prop data ''results'' \<noteq> Inr (JArr xs)"
  shows "receive rt (Inr (Response status (Some data))) st = (None, st\<lparr>moviesGrid := []\<rparr>)"
proof -
  obtain r where r: "get_prop data ''results'' = Inr r"
    using assms(2,3) by (cases data) simp_all
  have "\<forall>xs. r \<noteq> JArr xs" using assms(4) r by simp
  then have "(case r of JArr xs \<Rightarrow> xs | _ \<Rightarrow> []) = []" by (cases r) simp_all
  then show ?thesis using assms(1) r by (simp add: receive_def renderMovies_def)
qed

lemma receive_null_body:
  "ok status \<Longrightarrow> receive rt (Inr (Response status (Some JNull))) st = (Some (EngineError TypeError), st)"
  by (simp add: receive_def)

text \<open>
  Claim C3 holds for every body other than \<^verbatim>\<open>null\<close> (lemma
  \<open>receive_permissive\<close>), and fails on the body \<^verbatim>\<open>null\<close>: reading
  \<^verbatim>\<open>data.results\<close> throws, the \<^verbatim>\<open>catch\<close> shows the engine's
  message, and the renderer is not called. A body whose \<^verbatim>\<open>results\<close> is
  \<^verbatim>\<open>null\<close>, or a body that is a number, renders the empty list.
\<close>

theorem null_body_shows_error:
  "moviesGrid (run sample_runtime [Complete 0 (Response 200 (Some JNull))]
      (init sample_runtime sample_page)) = [Notice ''data is null'']
   \<and> moviesGrid (run sample_runtime [Complete 0 (Response 200 (Some (JObj [(''results'', JNull)])))]
      (init sample_runtime sample_page)) = []
   \<and> moviesGrid (run sample_runtime [Complete 0 (Response 200 (Some (JNum (Fin 5))))]
      (init sample_runtime sample_page)) = []"
  by code_simp

section \<open>Properties of the debounce\<close>

lemma on_input_fields:
  "clock (on_input v st) = clock st"
  "trace (on_input v st) = trace st"
  "debounceTimer (on_input v st) = Some (nextTimer st)"
  "timers (on_input v st) =
     (case debounceTimer st of None \<Rightarrow> timers st | Some i \<Rightarrow> filter (\<lambda>e. fst e \<noteq> i) (timers st))
       @ [(nextTimer st, clock st + 300, trim v)]"
  by (simp_all add: on_input_def Let_def setTimeout_def clearTimeout_def split: option.splits)

lemma on_input_timers:
  assumes "timer_inv st"
  shows "timers (on_input v st) = [(nextTimer st, clock st + 300, trim v)]"
proof -
  have "(case debounceTimer st of None \<Rightarrow> timers st | Some i \<Rightarrow> filter (\<lambda>e. fst e \<noteq> i) (timers st)) = []"
    using assms by (cases "timers st") (auto simp: timer_inv_def filter_empty_conv split: option.splits)
  then show ?thesis by (simp add: on_input_fields)
qed

lemma on_input_timer_inv: "timer_inv st \<Longrightarrow> timer_inv (on_input v st)"
  by (simp add: timer_inv_def on_input_timers [unfolded timer_inv_def] on_input_fields(3))

lemma elapse_short:
  assumes "timers st = [(i, t, q)]" and "clock st + d < t"
  shows "elapse rt d st = st\<lparr>clock := clock st + d\<rparr>"
  using assms by (simp add: elapse_def Let_def)

lemma elapse_long:
  assumes "timers st = [(i, t, q)]" and "t \<le> clock st + d"
  shows "elapse rt d st = debounce_callback rt q (st\<lparr>clock := clock st + d, timers := []\<rparr>)"
  using assms by (simp add: elapse_def Let_def)

lemma keystroke_short:
  assumes "timer_inv st" and "d < 300"
  shows "elapse rt d (on_input v st) = (on_input v st)\<lparr>clock := clock st + d\<rparr>"
  using elapse_short [OF on_input_timers [OF assms(1), of v], of d rt] assms(2)
  by (simp add: on_input_fields)

lemma keystroke_long:
  assumes "timer_inv st" and "300 \<le> d"
  shows "elapse rt d (on_input v st) =
           debounce_callback rt (trim v) ((on_input v st)\<lparr>clock := clock st + d, timers := []\<rparr>)"
  using elapse_long [OF on_input_timers [OF assms(1), of v], of d rt] assms(2)
  by (simp add: on_input_fields)

lemma run_Cons: "run rt (ev # evs) st = run rt evs (step rt ev st)"
  by (simp add: run_def)

lemma burst_Cons: "burst (k # ks) = Input (fst k) # Elapse (snd k) # burst ks"
  by (simp add: burst_def)

lemma burst_trace:
  assumes "timer_inv st" and "ks \<noteq> []"
    and "\<forall>k \<in> set (butlast ks). snd k < 300" and "300 \<le> snd (last ks)"
  shows "trace (run rt (burst ks) st) =
           trace st @ DebounceFired (trim (fst (last ks))) #
             (if 3 \<le> length (trim (fst (last ks))) then [SearchMovies (trim (fst (last ks)))]
              else if trim (fst (last ks)) = [] then [LoadTrending] else [])"
  using assms
proof (induction ks arbitrary: st)
  case Nil
  then show ?case by simp
next
  case (Cons k ks)
  show ?case
  proof (cases "ks = []")
    case True
    have d: "300 \<le> snd k" using Cons.prems(4) True by simp
    have "run rt (burst (k # ks)) st = elapse rt (snd k) (on_input (fst k) st)"
      using True by (simp add: burst_def run_def)
    then show ?thesis
      using True
      by (simp add: keystroke_long [OF Cons.prems(1) d] debounce_callback_trace on_input_fields)
  next
    case False
    have d: "snd k < 300" using Cons.prems(3) False by simp
    let ?s = "elapse rt (snd k) (on_input (fst k) st)"
    have e: "?s = (on_input (fst k) st)\<lparr>clock := clock st + snd k\<rparr>"
      by (rule keystroke_short [OF Cons.prems(1) d])
    have i: "timer_inv ?s"
      using on_input_timer_inv [OF Cons.prems(1), of "fst k"] by (simp add: e timer_inv_def)
    have t: "trace ?s = trace st" by (simp add: e on_input_fields)
    have r: "run rt (burst (k # ks)) st = run rt (burst ks) ?s"
      by (simp add: burst_Cons run_Cons)
    have b: "\<forall>k \<in> set (butlast ks). snd k < 300" using Cons.prems(3) False by simp
    have l: "300 \<le> snd (last ks)" using Cons.prems(4) False by simp
    show ?thesis
      using Cons.IH [OF i False b l] False by (simp add: r t)
  qed
qed

lemma debounce_callback_timer_inv: "timer_inv st \<Longrightarrow> timer_inv (debounce_callback rt q st)"
  by (simp add: timer_inv_def)

lemma fold_callback_timer_inv:
  "timer_inv st \<Longrightarrow> timer_inv (fold (\<lambda>e s. debounce_callback rt (snd (snd e)) s) due st)"
  by (simp add: timer_inv_def)

lemma elapse_timer_inv: "timer_inv st \<Longrightarrow> timer_inv (elapse rt d st)"
  by (simp add: timer_inv_def elapse_def Let_def)

lemma step_timer_inv: "timer_inv st \<Longrightarrow> timer_inv (step rt ev st)"
proof (cases ev)
  case (Input v) then show "timer_inv st \<Longrightarrow> ?thesis" by (simp add: on_input_timer_inv)
next
  case (Elapse d) then show "timer_inv st \<Longrightarrow> ?thesis" by (simp add: elapse_timer_inv)
next
  case ClickSave
  then show "timer_inv st \<Longrightarrow> ?thesis"
    by (simp add: timer_inv_def on_save_def Let_def showSettings_def saveApiKey_def)
next
  case Submit
  then show "timer_inv st \<Longrightarrow> ?thesis" by (simp add: timer_inv_def on_submit_def Let_def)
qed (simp_all add: timer_inv_def showSettings_def)

lemma run_timer_inv: "timer_inv st \<Longrightarrow> timer_inv (run rt evs st)"
  unfolding run_def by (induction evs arbitrary: st) (simp_all add: step_timer_inv)

lemma init_timer_inv: "timer_inv (init rt (page store rfail wfail sect))"
  by (simp add: timer_inv_def init_def Let_def showSettings_def loadApiKey_def page_def
        split: option.splits)

lemma reachable_timer_inv: "timer_inv (run rt evs (init rt (page store rfail wfail sect)))"
  by (rule run_timer_inv [OF init_timer_inv])

text \<open>
  Claim C4. From any reachable state, a burst of \<^verbatim>\<open>input\<close> events in which
  each event but the last is followed by less than 300 ms, and the last by 300 ms or
  more, runs the debounce callback exactly once, with the trimmed text of the last
  event: the trace grows by that one run and by the call it makes. Typing
  \<^verbatim>\<open>a\<close>, \<^verbatim>\<open>ab\<close>, \<^verbatim>\<open>abc\<close> starts exactly one search, for
  \<^verbatim>\<open>abc\<close>.
\<close>

theorem debounce_burst:
  assumes "ks \<noteq> []" and "\<forall>k \<in> set (butlast ks). snd k < 300" and "300 \<le> snd (last ks)"
  shows "trace (run rt (burst ks) (run rt evs (init rt (page store rfail wfail sect)))) =
           trace (run rt evs (init rt (page store rfail wfail sect)))
             @ DebounceFired (trim (fst (last ks))) #
               (if 3 \<le> length (trim (fst (last ks))) then [SearchMovies (trim (fst (last ks)))]
                else if trim (fst (last ks)) = [] then [LoadTrending] else [])"
  by (rule burst_trace [OF reachable_timer_inv assms])

theorem debounce_burst_witness:
  "trace (run sample_runtime (burst [(''a'', 100), (''ab'', 100), (''abc'', 300)])
       (init sample_runtime sample_page))
     = [LoadTrending, DebounceFired ''abc'', SearchMovies ''abc'']"
proof -
  let ?ks = "[(''a'', 100 :: nat), (''ab'', 100), (''abc'', 300)]"
  have h1: "?ks \<noteq> []" by simp
  have h2: "\<forall>k \<in> set (butlast ?ks). snd k < 300" by simp
  have h3: "300 \<le> snd (last ?ks)" by simp
  have t: "trim ''abc'' = ''abc''" by code_simp
  have i: "trace (init sample_runtime sample_page) = [LoadTrending]" by code_simp
  note T = debounce_burst [OF h1 h2 h3, of sample_runtime "[]"
      "Map.empty(key_name \<mapsto> ''0123456789abcdef'')" False False True, folded sample_page_def]
  have "run sample_runtime [] (init sample_runtime sample_page) = init sample_runtime sample_page"
    by (simp add: run_def)
  with T show ?thesis by (simp add: t i)
qed

text \<open>
  Claim C5. When the debounce timer fires with the trimmed query \<open>q\<close>: a query of
  three characters or more calls \<^verbatim>\<open>searchMovies\<close> with it, the empty query
  calls \<^verbatim>\<open>loadTrending\<close>, and a query of one or two characters changes nothing
  but the record of the callback having run. The timer set by an \<^verbatim>\<open>input\<close>
  event fires, once 300 ms have passed, with the trimmed text of that event.
\<close>

theorem debounce_fire_cases:
  "(3 \<le> length q \<longrightarrow>
      debounce_callback rt q st = searchMovies rt q (st\<lparr>trace := trace st @ [DebounceFired q]\<rparr>)
      \<and> trace (debounce_callback rt q st) = trace st @ [DebounceFired q, SearchMovies q])
   \<and> (q = [] \<longrightarrow>
      debounce_callback rt q st = loadTrending rt (st\<lparr>trace := trace st @ [DebounceFired q]\<rparr>)
      \<and> trace (debounce_callback rt q st) = trace st @ [DebounceFired q, LoadTrending])
   \<and> (length q = 1 \<or> length q = 2 \<longrightarrow>
      debounce_callback rt q st = st\<lparr>trace := trace st @ [DebounceFired q]\<rparr>)
   \<and> (300 \<le> d \<longrightarrow>
      step rt (Elapse d) (step rt (Input v) (run rt evs (init rt (page store rfail wfail sect)))) =
        debounce_callback rt (trim v)
          ((on_input v (run rt evs (init rt (page store rfail wfail sect))))
             \<lparr>clock := clock (run rt evs (init rt (page store rfail wfail sect))) + d, timers := []\<rparr>))"
proof -
  have a: "3 \<le> length q \<longrightarrow>
      debounce_callback rt q st = searchMovies rt q (st\<lparr>trace := trace st @ [DebounceFired q]\<rparr>)
      \<and> trace (debounce_callback rt q st) = trace st @ [DebounceFired q, SearchMovies q]"
    by (auto simp: debounce_callback_def Let_def)
  have b: "q = [] \<longrightarrow>
      debounce_callback rt q st = loadTrending rt (st\<lparr>trace := trace st @ [DebounceFired q]\<rparr>)
      \<and> trace (debounce_callback rt q st) = trace st @ [DebounceFired q, LoadTrending]"
    by (auto simp: debounce_callback_def Let_def)
  have c: "length q = 1 \<or> length q = 2 \<longrightarrow>
      debounce_callback rt q st = st\<lparr>trace := trace st @ [DebounceFired q]\<rparr>"
    by (auto simp: debounce_callback_def Let_def)
  have e: "300 \<le> d \<longrightarrow>
      step rt (Elapse d) (step rt (Input v) (run rt evs (init rt (page store rfail wfail sect)))) =
        debounce_callback rt (trim v)
          ((on_input v (run rt evs (init rt (page store rfail wfail sect))))
             \<lparr>clock := clock (run rt evs (init rt (page store rfail wfail sect))) + d, timers := []\<rparr>)"
    using keystroke_long [OF reachable_timer_inv, where d = d and rt = rt and v = v] by simp
  show ?thesis using a b c e by blast
qed

theorem debounce_fire_cases_witness:
  "trace (debounce_callback sample_runtime ''abc'' (init sample_runtime sample_page))
     = [LoadTrending, DebounceFired ''abc'', SearchMovies ''abc'']
   \<and> trace (debounce_callback sample_runtime [] (init sample_runtime sample_page))
     = [LoadTrending, DebounceFired [], LoadTrending]
   \<and> debounce_callback sample_runtime ''ab'' (init sample_runtime sample_page)
     = (init sample_runtime sample_page)
         \<lparr>trace := trace (init sample_runtime sample_page) @ [DebounceFired ''ab'']\<rparr>
   \<and> trace (step sample_runtime (Elapse 300)
        (step sample_runtime (Input '' ab '') (init sample_runtime sample_page)))
     = [LoadTrending, DebounceFired ''ab'']"
proof -
  let ?s = "init sample_runtime sample_page"
  have i: "trace ?s = [LoadTrending]" by code_simp
  have r: "run sample_runtime [] ?s = ?s" by (simp add: run_def)
  have a: "trace (debounce_callback sample_runtime ''abc'' ?s) = trace ?s @ [DebounceFired ''abc'', SearchMovies ''abc'']"
    using debounce_fire_cases [of "''abc''" sample_runtime ?s] by simp
  have b: "trace (debounce_callback sample_runtime [] ?s) = trace ?s @ [DebounceFired [], LoadTrending]"
    using debounce_fire_cases [of "[]" sample_runtime ?s] by simp
  have c: "debounce_callback sample_runtime ''ab'' ?s = ?s\<lparr>trace := trace ?s @ [DebounceFired ''ab'']\<rparr>"
    using debounce_fire_cases [of "''ab''" sample_runtime ?s] by simp
  have t: "trim '' ab '' = ''ab''" by code_simp
  have d: "step sample_runtime (Elapse 300) (step sample_runtime (Input '' ab '') ?s) =
        debounce_callback sample_runtime ''ab''
          ((on_input '' ab '' ?s)\<lparr>clock := clock ?s + 300, timers := []\<rparr>)"
    using debounce_fire_cases [where d = 300 and rt = sample_runtime and v = "'' ab ''" and evs = "[]"
        and store = "Map.empty(key_name \<mapsto> ''0123456789abcdef'')" and rfail = False
        and wfail = False and sect = True, folded sample_page_def]
    by (simp only: r t)
  have e: "trace (step sample_runtime (Elapse 300) (step sample_runtime (Input '' ab '') ?s))
     = trace ?s @ [DebounceFired ''ab'']"
    by (simp only: d) (simp add: debounce_callback_trace on_input_fields)
  show ?thesis using a b c e by (simp add: i)
qed

section \<open>Properties of a superseded fetch\<close>

lemma fold_settle_grid:
  "ps \<noteq> [] \<Longrightarrow>
     moviesGrid (fold (\<lambda>p s. settle rt (Some e, s)) ps st) =
       [Notice (if message rt e \<noteq> [] then message rt e else ''Something went wrong'')]"
proof (induction ps arbitrary: st)
  case Nil then show ?case by simp
next
  case (Cons p ps)
  show ?case
  proof (cases "ps = []")
    case True then show ?thesis by simp
  next
    case False
    then show ?thesis using Cons.IH [of "settle rt (Some e, st)"] by simp
  qed
qed

lemma supersede_dead:
  assumes "net_inv st" and "(a, u) \<in> set (pending st)"
  shows "filter (\<lambda>p. fst p \<in> set (case abortController st of None \<Rightarrow> aborted st | Some h \<Rightarrow> h # aborted st))
           (pending st @ [(nextController st, url)]) \<noteq> []"
proof -
  have "abortController st = Some a" using assms by (auto simp: net_inv_def)
  then have "(a, u) \<in> set (filter (\<lambda>p. fst p \<in> set (case abortController st of None \<Rightarrow> aborted st | Some h \<Rightarrow> h # aborted st))
           (pending st @ [(nextController st, url)]))"
    using assms(2) by simp
  then show ?thesis by (metis empty_iff empty_set)
qed

lemma searchMovies_grid_superseded:
  assumes "net_inv st" and "(a, u) \<in> set (pending st)" and "key_truthy (apiKey st)"
  shows "moviesGrid (searchMovies rt q st) =
           [Notice (if engine_message rt AbortError \<noteq> [] then engine_message rt AbortError
                    else ''Something went wrong'')]"
proof -
  let ?st1 = "setBusy True (st\<lparr>trace := trace st @ [SearchMovies q]\<rparr>)"
  let ?st2 = "start_fetch (buildSearchUrl ?st1 q 1) (new_controller (abort_stored ?st1))"
  have i1: "net_inv ?st1" using assms(1) by (simp add: net_inv_def)
  have p1: "(a, u) \<in> set (pending ?st1)" using assms(2) by simp
  have d: "filter (\<lambda>p. fst p \<in> set (aborted ?st2)) (pending ?st2) \<noteq> []"
    unfolding dispatch_fields by (rule supersede_dead [OF i1 p1])
  have "searchMovies rt q st = reject_aborted rt ?st2"
    using assms(3) by (simp add: searchMovies_def Let_def fetchJson_def)
  then show ?thesis
    using fold_settle_grid [OF d, of rt "EngineError AbortError"] by (simp add: reject_aborted_def Let_def)
qed

lemma loadTrending_grid_superseded:
  assumes "net_inv st" and "(a, u) \<in> set (pending st)" and "key_truthy (apiKey st)"
  shows "moviesGrid (loadTrending rt st) =
           [Notice (if engine_message rt AbortError \<noteq> [] then engine_message rt AbortError
                    else ''Something went wrong'')]"
proof -
  let ?st1 = "setBusy True (st\<lparr>trace := trace st @ [LoadTrending]\<rparr>)"
  let ?st2 = "start_fetch (buildTrendingUrl ?st1) (new_controller (abort_stored ?st1))"
  have i1: "net_inv ?st1" using assms(1) by (simp add: net_inv_def)
  have p1: "(a, u) \<in> set (pending ?st1)" using assms(2) by simp
  have d: "filter (\<lambda>p. fst p \<in> set (aborted ?st2)) (pending ?st2) \<noteq> []"
    unfolding dispatch_fields by (rule supersede_dead [OF i1 p1])
  have "loadTrending rt st = reject_aborted rt ?st2"
    using assms(3) by (simp add: loadTrending_def Let_def fetchJson_def)
  then show ?thesis
    using fold_settle_grid [OF d, of rt "EngineError AbortError"] by (simp add: reject_aborted_def Let_def)
qed

lemma complete_not_pending: "h \<notin> fst ` set (pending st) \<Longrightarrow> complete rt h out st = st"
  by (simp add: complete_def map_of_eq_None_iff [THEN iffD2])

lemma stored_below_next:
  "net_inv st \<Longrightarrow> (a, u) \<in> set (pending st) \<Longrightarrow> a < nextController st \<and> abortController st = Some a"
  by (auto simp: net_inv_def)

lemma retired_frame:
  assumes "retired a st" and "pending st' = pending st" and "nextController st' = nextController st"
  shows "retired a st'"
  using assms by (simp add: retired_def)

lemma retired_dispatch:
  assumes "retired a st"
    and "pending st' = filter P (pending st @ [(nextController st, url)])"
    and "nextController st' = Suc (nextController st)"
  shows "retired a st'"
  using assms by (auto simp: retired_def)

lemma retired_searchMovies: "retired a st \<Longrightarrow> retired a (searchMovies rt q st)"
proof (cases "key_truthy (apiKey st)")
  case True
  assume r: "retired a st"
  show ?thesis
    by (rule retired_dispatch [OF r searchMovies_key(3) [OF True] searchMovies_key(4) [OF True]])
next
  case False
  assume r: "retired a st"
  show ?thesis
    by (rule retired_frame [OF r searchMovies_nokey(3) [OF False] searchMovies_nokey(4) [OF False]])
qed

lemma retired_loadTrending: "retired a st \<Longrightarrow> retired a (loadTrending rt st)"
proof (cases "key_truthy (apiKey st)")
  case True
  assume r: "retired a st"
  show ?thesis
    by (rule retired_dispatch [OF r loadTrending_key(3) [OF True] loadTrending_key(4) [OF True]])
next
  case False
  assume r: "retired a st"
  show ?thesis
    by (rule retired_frame [OF r loadTrending_nokey(3) [OF False] loadTrending_nokey(4) [OF False]])
qed

lemma retired_complete: "retired a st \<Longrightarrow> retired a (complete rt h out st)"
  by (auto simp: retired_def complete_pending)

lemma retired_callback: "retired a st \<Longrightarrow> retired a (debounce_callback rt q st)"
proof -
  assume r: "retired a st"
  have j: "retired a (st\<lparr>trace := trace st @ [DebounceFired q]\<rparr>)"
    using r by (simp add: retired_def)
  show ?thesis
    using j by (auto simp: debounce_callback_def Let_def intro: retired_searchMovies retired_loadTrending)
qed

lemma retired_fold_callback:
  "retired a st \<Longrightarrow> retired a (fold (\<lambda>e s. debounce_callback rt (snd (snd e)) s) due st)"
  by (induction due arbitrary: st) (simp_all add: retired_callback)

lemma retired_elapse: "retired a st \<Longrightarrow> retired a (elapse rt d st)"
proof -
  assume r: "retired a st"
  have "retired a (st\<lparr>clock := clock st + d,
                    timers := filter (\<lambda>e. \<not> fst (snd e) \<le> clock st + d) (timers st)\<rparr>)"
    using r by (simp add: retired_def)
  then show ?thesis by (simp add: elapse_def Let_def retired_fold_callback)
qed

lemma retired_step: "retired a st \<Longrightarrow> retired a (step rt ev st)"
proof (cases ev)
  case ClickSave
  assume r: "retired a st"
  have a: "retired a (st\<lparr>alerts := alerts st @ [''Please paste a valid TMDb API key.'']\<rparr>)"
    using r by (simp add: retired_def)
  have b: "retired a (showSettings False (saveApiKey (trim (apiKeyInput st)) st))"
    using r by (simp add: retired_def showSettings_def saveApiKey_def)
  show ?thesis using ClickSave a b by (simp add: on_save_def Let_def retired_loadTrending)
next
  case (Input v)
  then show "retired a st \<Longrightarrow> ?thesis"
    by (simp add: retired_def on_input_def Let_def setTimeout_def clearTimeout_def split: option.splits)
next
  case Submit
  then show "retired a st \<Longrightarrow> ?thesis" by (simp add: on_submit_def Let_def retired_searchMovies)
next
  case (Elapse d)
  then show "retired a st \<Longrightarrow> ?thesis" by (simp add: retired_elapse)
next
  case (Complete h out)
  then show "retired a st \<Longrightarrow> ?thesis" by (simp add: retired_complete)
qed (simp_all add: retired_def showSettings_def)

lemma retired_run: "retired a st \<Longrightarrow> retired a (run rt evs st)"
  unfolding run_def by (induction evs arbitrary: st) (simp_all add: retired_step)

lemma retired_ignored:
  assumes "retired a st"
  shows "a \<notin> fst ` set (pending (run rt evs st)) \<and> complete rt a out (run rt evs st) = run rt evs st"
proof -
  have "a \<notin> fst ` set (pending (run rt evs st))"
    using retired_run [OF assms, of rt evs] by (simp add: retired_def)
  then show ?thesis by (simp add: complete_not_pending)
qed

lemma superseded_general:
  assumes i: "net_inv st"
    and p: "(a, u) \<in> set (pending st)"
    and k: "key_truthy (apiKey st)"
    and s: "st' = searchMovies rt q st \<or> st' = loadTrending rt st"
  shows "a \<in> set (aborted st')
       \<and> a \<notin> fst ` set (pending st')
       \<and> length (pending st') = 1
       \<and> moviesGrid st' =
           [Notice (if engine_message rt AbortError \<noteq> [] then engine_message rt AbortError
                    else ''Something went wrong'')]
       \<and> (\<forall>evs out. a \<notin> fst ` set (pending (run rt evs st'))
                     \<and> complete rt a out (run rt evs st') = run rt evs st')"
proof -
  have lt: "a < nextController st" and sa: "abortController st = Some a"
    using stored_below_next [OF i p] by simp_all
  have ab: "a \<in> set (aborted st')"
    using s sa by (auto simp: searchMovies_key(2) [OF k] loadTrending_key(2) [OF k])
  have pe: "pending st' = [(nextController st, buildSearchUrl st q 1)]
            \<or> pending st' = [(nextController st, buildTrendingUrl st)]"
    using s searchMovies_pending [OF i k, of rt q] loadTrending_pending [OF i k, of rt] by auto
  have np: "a \<notin> fst ` set (pending st')" using pe lt by auto
  have nx: "nextController st' = Suc (nextController st)"
    using s by (auto simp: searchMovies_key(4) [OF k] loadTrending_key(4) [OF k])
  have gr: "moviesGrid st' =
           [Notice (if engine_message rt AbortError \<noteq> [] then engine_message rt AbortError
                    else ''Something went wrong'')]"
    using s searchMovies_grid_superseded [OF i p k, of rt q]
      loadTrending_grid_superseded [OF i p k, of rt] by auto
  have re: "retired a st'" using np nx lt by (simp add: retired_def)
  have la: "\<forall>evs out. a \<notin> fst ` set (pending (run rt evs st'))
                     \<and> complete rt a out (run rt evs st') = run rt evs st'"
    using retired_ignored [OF re] by blast
  have le: "length (pending st') = 1" using pe by auto
  show ?thesis using ab np le gr la by blast
qed

lemma step_timers_short:
  assumes "timer_inv st" and "length (timers st) \<le> 1"
  shows "length (timers (step rt ev st)) \<le> 1"
proof (cases ev)
  case (Input v)
  then show ?thesis by (simp add: on_input_timers [OF assms(1)])
next
  case (Elapse d)
  have "length (filter (\<lambda>e. \<not> fst (snd e) \<le> clock st + d) (timers st)) \<le> length (timers st)"
    by (rule length_filter_le)
  then have "length (filter (\<lambda>e. \<not> fst (snd e) \<le> clock st + d) (timers st)) \<le> 1"
    using assms(2) by (rule order_trans)
  then show ?thesis using Elapse by (simp add: elapse_def Let_def)
next
  case ClickSave
  then show ?thesis
    using assms(2) by (simp add: on_save_def Let_def showSettings_def saveApiKey_def)
next
  case Submit
  then show ?thesis using assms(2) by (simp add: on_submit_def Let_def)
qed (use assms(2) in \<open>simp_all add: showSettings_def\<close>)

lemma run_timers_short:
  "timer_inv st \<Longrightarrow> length (timers st) \<le> 1 \<Longrightarrow> length (timers (run rt evs st)) \<le> 1"
proof (induction evs arbitrary: st)
  case Nil
  then show ?case by (simp add: run_def)
next
  case (Cons ev evs)
  have "length (timers (run rt evs (step rt ev st))) \<le> 1"
    by (rule Cons.IH [OF step_timer_inv [OF Cons.prems(1)] step_timers_short [OF Cons.prems]])
  then show ?case by (simp add: run_def)
qed

lemma reachable_timers_short:
  "length (timers (run rt evs (init rt (page store rfail wfail sect)))) \<le> 1"
proof -
  have "timers (init rt (page store rfail wfail sect)) = []"
    by (simp add: init_def Let_def showSettings_def loadApiKey_def page_def split: option.splits)
  then show ?thesis
    using run_timers_short [OF init_timer_inv, of rt store rfail wfail sect rt evs] by simp
qed

lemma superseded_by_event:
  assumes i: "net_inv s" and ts: "length (timers s) \<le> 1"
    and p: "(a, u) \<in> set (pending s)"
    and n: "nextController (step rt ev s) \<noteq> nextController s"
  shows "\<exists>st q. net_inv st \<and> (a, u) \<in> set (pending st) \<and> key_truthy (apiKey st)
           \<and> (step rt ev s = searchMovies rt q st \<or> step rt ev s = loadTrending rt st)"
proof (cases ev)
  case Submit
  let ?q = "trim (searchInput s)"
  have e: "step rt ev s = searchMovies rt ?q s"
    using Submit n by (auto simp: on_submit_def Let_def)
  have k: "key_truthy (apiKey s)"
    using n e searchMovies_nokey(4) [of s rt ?q] by auto
  show ?thesis using i p k e by blast
next
  case ClickSave
  let ?st = "showSettings False (saveApiKey (trim (apiKeyInput s)) s)"
  have e: "step rt ev s = loadTrending rt ?st"
    using ClickSave n by (auto simp: on_save_def Let_def)
  have f: "pending ?st = pending s" "nextController ?st = nextController s"
    by (simp_all add: showSettings_def saveApiKey_def)
  have j: "net_inv ?st" using i by (simp add: net_inv_def showSettings_def saveApiKey_def)
  have k: "key_truthy (apiKey ?st)"
    using n e f loadTrending_nokey(4) [of ?st rt] by auto
  show ?thesis using j p k e f by auto
next
  case (Elapse d)
  show ?thesis
  proof (cases "timers s")
    case Nil
    then have "step rt ev s = s\<lparr>clock := clock s + d, timers := []\<rparr>"
      using Elapse by (simp add: elapse_def Let_def)
    then show ?thesis using n by simp
  next
    case (Cons e es)
    then have es: "es = []" using ts by simp
    obtain j t q where e: "e = (j, t, q)" by (cases e) auto
    have tm: "timers s = [(j, t, q)]" using Cons es e by simp
    show ?thesis
    proof (cases "t \<le> clock s + d")
      case False
      then have "step rt ev s = s\<lparr>clock := clock s + d\<rparr>"
        using Elapse elapse_short [OF tm, of d rt] by simp
      then show ?thesis using n by simp
    next
      case True
      let ?s0 = "s\<lparr>clock := clock s + d, timers := [], trace := trace s @ [DebounceFired q]\<rparr>"
      have st: "step rt ev s = debounce_callback rt q (s\<lparr>clock := clock s + d, timers := []\<rparr>)"
        using Elapse elapse_long [OF tm True, of rt] by simp
      have j0: "net_inv ?s0" using i by (simp add: net_inv_def)
      have p0: "(a, u) \<in> set (pending ?s0)" using p by simp
      have c: "step rt ev s = (if 3 \<le> length q then searchMovies rt q ?s0
                               else if q = [] then loadTrending rt ?s0 else ?s0)"
        by (auto simp: st debounce_callback_def Let_def)
      show ?thesis
      proof (cases "3 \<le> length q")
        case True
        then have e1: "step rt ev s = searchMovies rt q ?s0" using c by simp
        have k: "key_truthy (apiKey ?s0)"
          using n e1 searchMovies_nokey(4) [of ?s0 rt q] by auto
        show ?thesis using j0 p0 k e1 by blast
      next
        case False
        show ?thesis
        proof (cases "q = []")
          case True
          then have e1: "step rt ev s = loadTrending rt ?s0" using c by simp
          have k: "key_truthy (apiKey ?s0)"
            using n e1 loadTrending_nokey(4) [of ?s0 rt] by auto
          show ?thesis using j0 p0 k e1 by blast
        next
          case q: False
          then have "step rt ev s = ?s0" using c False by simp
          then show ?thesis using n by simp
        qed
      qed
    qed
  qed
qed (use n in \<open>simp_all add: showSettings_def on_input_def Let_def setTimeout_def clearTimeout_def
        split: option.splits\<close>)

text \<open>
  Claim C1, as the code has it. Whenever \<^verbatim>\<open>searchMovies\<close> or
  \<^verbatim>\<open>loadTrending\<close> starts a fetch B while a fetch A is pending, A's controller
  is aborted and A is no longer pending once the handler has returned; in every state
  that follows, whatever events occur, A is not pending and an outcome the network
  delivers for A changes nothing: no cards are ever rendered from A. A's promise is
  rejected with the abort error, and that error takes the \<^verbatim>\<open>catch\<close> of A's
  caller like any other: \<^verbatim>\<open>notifyError\<close> puts its message in the grid. The
  first part states this for a call in any state that satisfies the invariant of the
  handle, which every call site does; the second for every event of a run of the script
  that starts a fetch, be it a submission, the saving of a credential or the debounce
  timer of live typing.
\<close>

theorem superseded_fetch_never_renders:
  "(net_inv st \<and> (a, u) \<in> set (pending st) \<and> key_truthy (apiKey st)
      \<and> (st' = searchMovies rt q st \<or> st' = loadTrending rt st)
     \<longrightarrow> a \<in> set (aborted st')
       \<and> a \<notin> fst ` set (pending st')
       \<and> length (pending st') = 1
       \<and> moviesGrid st' =
           [Notice (if engine_message rt AbortError \<noteq> [] then engine_message rt AbortError
                    else ''Something went wrong'')]
       \<and> (\<forall>evs out. a \<notin> fst ` set (pending (run rt evs st'))
                     \<and> complete rt a out (run rt evs st') = run rt evs st'))
   \<and> (s = run rt hist (init rt (page store rfail wfail sect)) \<and> (b, w) \<in> set (pending s)
      \<and> nextController (step rt ev s) \<noteq> nextController s
     \<longrightarrow> b \<in> set (aborted (step rt ev s))
       \<and> b \<notin> fst ` set (pending (step rt ev s))
       \<and> length (pending (step rt ev s)) = 1
       \<and> moviesGrid (step rt ev s) =
           [Notice (if engine_message rt AbortError \<noteq> [] then engine_message rt AbortError
                    else ''Something went wrong'')]
       \<and> (\<forall>evs out. b \<notin> fst ` set (pending (run rt evs (step rt ev s)))
                     \<and> complete rt b out (run rt evs (step rt ev s)) = run rt evs (step rt ev s)))"
proof (rule conjI; rule impI)
  assume "net_inv st \<and> (a, u) \<in> set (pending st) \<and> key_truthy (apiKey st)
      \<and> (st' = searchMovies rt q st \<or> st' = loadTrending rt st)"
  then have i: "net_inv st" and p: "(a, u) \<in> set (pending st)" and k: "key_truthy (apiKey st)"
    and s: "st' = searchMovies rt q st \<or> st' = loadTrending rt st" by blast+
  show "a \<in> set (aborted st')
       \<and> a \<notin> fst ` set (pending st')
       \<and> length (pending st') = 1
       \<and> moviesGrid st' =
           [Notice (if engine_message rt AbortError \<noteq> [] then engine_message rt AbortError
                    else ''Something went wrong'')]
       \<and> (\<forall>evs out. a \<notin> fst ` set (pending (run rt evs st'))
                     \<and> complete rt a out (run rt evs st') = run rt evs st')"
    by (rule superseded_general [OF i p k s])
next
  assume "s = run rt hist (init rt (page store rfail wfail sect)) \<and> (b, w) \<in> set (pending s)
      \<and> nextController (step rt ev s) \<noteq> nextController s"
  then have r: "s = run rt hist (init rt (page store rfail wfail sect))"
    and p: "(b, w) \<in> set (pending s)"
    and n: "nextController (step rt ev s) \<noteq> nextController s" by blast+
  have i: "net_inv s" unfolding r by (rule reachable_inv)
  have ts: "length (timers s) \<le> 1" unfolding r by (rule reachable_timers_short)
  obtain st0 q0 where j: "net_inv st0" and p0: "(b, w) \<in> set (pending st0)"
    and k: "key_truthy (apiKey st0)"
    and e: "step rt ev s = searchMovies rt q0 st0 \<or> step rt ev s = loadTrending rt st0"
    using superseded_by_event [OF i ts p n] by blast
  show "b \<in> set (aborted (step rt ev s))
       \<and> b \<notin> fst ` set (pending (step rt ev s))
       \<and> length (pending (step rt ev s)) = 1
       \<and> moviesGrid (step rt ev s) =
           [Notice (if engine_message rt AbortError \<noteq> [] then engine_message rt AbortError
                    else ''Something went wrong'')]
       \<and> (\<forall>evs out. b \<notin> fst ` set (pending (run rt evs (step rt ev s)))
                     \<and> complete rt b out (run rt evs (step rt ev s)) = run rt evs (step rt ev s))"
    by (rule superseded_general [OF j p0 k e])
qed

theorem superseded_fetch_never_renders_witness:
  "moviesGrid (searchMovies sample_runtime ''blade''
        (run sample_runtime [Complete 0 (Response 200 (Some dune_body)), Input ''alien'', Submit]
           (init sample_runtime sample_page))) = [Notice ''The operation was aborted.'']
   \<and> complete sample_runtime 1 (Response 200 (Some dune_body))
        (run sample_runtime [Elapse 300, Input ''x'']
          (searchMovies sample_runtime ''blade''
            (run sample_runtime [Complete 0 (Response 200 (Some dune_body)), Input ''alien'', Submit]
               (init sample_runtime sample_page))))
      = run sample_runtime [Elapse 300, Input ''x'']
          (searchMovies sample_runtime ''blade''
            (run sample_runtime [Complete 0 (Response 200 (Some dune_body)), Input ''alien'', Submit]
               (init sample_runtime sample_page)))
   \<and> 1 \<in> set (aborted (step sample_runtime (Elapse 300)
        (run sample_runtime [Input ''alien'', Elapse 300, Input ''aliens'']
           (init sample_runtime sample_page))))
   \<and> moviesGrid (step sample_runtime (Elapse 300)
        (run sample_runtime [Input ''alien'', Elapse 300, Input ''aliens'']
           (init sample_runtime sample_page))) = [Notice ''The operation was aborted.'']
   \<and> complete sample_runtime 1 (Response 200 (Some dune_body))
        (run sample_runtime [Submit]
          (step sample_runtime (Elapse 300)
            (run sample_runtime [Input ''alien'', Elapse 300, Input ''aliens'']
               (init sample_runtime sample_page))))
      = run sample_runtime [Submit]
          (step sample_runtime (Elapse 300)
            (run sample_runtime [Input ''alien'', Elapse 300, Input ''aliens'']
               (init sample_runtime sample_page)))"
proof -
  let ?evs = "[Complete 0 (Response 200 (Some dune_body)), Input ''alien'', Submit]"
  let ?s = "run sample_runtime ?evs (init sample_runtime sample_page)"
  let ?u = "''https://api.themoviedb.org/3/search/movie?api_key=0123456789abcdef&query=alien&include_adult=false&language=en-US&page=1''"
  let ?hist = "[Input ''alien'', Elapse 300, Input ''aliens'']"
  let ?t = "run sample_runtime ?hist (init sample_runtime sample_page)"
  have i: "net_inv ?s" unfolding sample_page_def by (rule reachable_inv)
  have p: "(1, ?u) \<in> set (pending ?s)" by code_simp
  have k: "key_truthy (apiKey ?s)" by code_simp
  have m: "engine_message sample_runtime AbortError = ''The operation was aborted.''"
    by (simp add: sample_runtime_def)
  have r: "?t = run sample_runtime ?hist
      (init sample_runtime (page (Map.empty(key_name \<mapsto> ''0123456789abcdef'')) False False True))"
    by (simp add: sample_page_def)
  have p2: "(1, ?u) \<in> set (pending ?t)" by code_simp
  have n2: "nextController (step sample_runtime (Elapse 300) ?t) \<noteq> nextController ?t" by code_simp
  note T = superseded_fetch_never_renders [where rt = sample_runtime and st = ?s and a = 1
      and u = ?u and q = "''blade''" and st' = "searchMovies sample_runtime ''blade'' ?s"
      and s = ?t and hist = ?hist and store = "Map.empty(key_name \<mapsto> ''0123456789abcdef'')"
      and rfail = False and wfail = False and sect = True and b = 1 and w = ?u
      and ev = "Elapse 300"]
  note A = T [THEN conjunct1, rule_format, OF conjI [OF i conjI [OF p conjI [OF k disjI1 [OF refl]]]]]
  note B = T [THEN conjunct2, rule_format, OF conjI [OF r conjI [OF p2 n2]]]
  have a1: "moviesGrid (searchMovies sample_runtime ''blade'' ?s) = [Notice ''The operation was aborted.'']"
    using A [THEN conjunct2, THEN conjunct2, THEN conjunct2, THEN conjunct1] by (simp only: m) simp
  note a2 = A [THEN conjunct2, THEN conjunct2, THEN conjunct2, THEN conjunct2, rule_format,
      of "[Elapse 300, Input ''x'']" "Response 200 (Some dune_body)", THEN conjunct2]
  note b1 = B [THEN conjunct1]
  have b2: "moviesGrid (step sample_runtime (Elapse 300) ?t) = [Notice ''The operation was aborted.'']"
    using B [THEN conjunct2, THEN conjunct2, THEN conjunct2, THEN conjunct1] by (simp only: m) simp
  note b3 = B [THEN conjunct2, THEN conjunct2, THEN conjunct2, THEN conjunct2, rule_format,
      of "[Submit]" "Response 200 (Some dune_body)", THEN conjunct2]
  show ?thesis
    by (intro conjI) (rule a1, rule a2, rule b1, rule b2, rule b3)
qed

text \<open>
  The claim as written fails: with the card of an earlier response on display and a
  search pending, a second search replaces the card by the abort message of the first
  while the second is still pending.
\<close>

theorem superseded_fetch_counterexample:
  "moviesGrid (run sample_runtime [Complete 0 (Response 200 (Some dune_body)), Input ''alien'', Submit]
      (init sample_runtime sample_page))
     = [CardNode \<lparr>ident = FromId ''841'', poster = Placeholder, title = Text ''Dune'',
          rating = Text ''N/A'', year = Text ''1984''\<rparr>]
   \<and> map fst (pending (run sample_runtime [Complete 0 (Response 200 (Some dune_body)), Input ''alien'', Submit]
      (init sample_runtime sample_page))) = [1]
   \<and> moviesGrid (run sample_runtime
        [Complete 0 (Response 200 (Some dune_body)), Input ''alien'', Submit, Input ''blade'', Submit]
        (init sample_runtime sample_page))
     = [Notice ''The operation was aborted.'']
   \<and> map fst (pending (run sample_runtime
        [Complete 0 (Response 200 (Some dune_body)), Input ''alien'', Submit, Input ''blade'', Submit]
        (init sample_runtime sample_page))) = [2]"
  by code_simp

end
